theory Spec2Isabelle
  imports Main "HOL-Library.AList" "HOL-Library.Multiset"
begin

text \<open>
  The process supervisor of local-script-management: the server that keeps the tasks in
  \<^verbatim>\<open>tasks.json\<close>, starts and stops their commands as child processes, captures their
  output, and restarts them from a guardian loop. Each function of the server is a
  function on a record of its state. What the surroundings contribute is passed in: the
  time stamps, the pids, the result of \<^verbatim>\<open>Date.parse\<close>, and the events of the children in
  the order in which the event loop hands them to the handlers.
\<close>

section \<open>JSON values and the JavaScript operations the server applies to them\<close>

text \<open>
  Tasks are plain JSON objects, read with \<^verbatim>\<open>JSON.parse\<close> from \<^verbatim>\<open>tasks.json\<close> or from a
  request body. An object is its list of own properties in insertion order. JSON numbers
  are modelled by integers (every numeric task field is an integer count, a number of
  seconds or a port), of a size that JavaScript represents exactly and prints in decimal.
  A property that is absent (JavaScript \<^verbatim>\<open>undefined\<close>) is \<open>None\<close>. A string is its
  sequence of bytes.
\<close>

datatype json =
    JNull
  | JBool bool
  | JNum int
  | JStr string
  | JArr "json list"
  | JObj "(string \<times> json) list"

text \<open>Decimal digits, for \<^verbatim>\<open>String(n)\<close> and for the index keys of an array.\<close>

fun show_nat :: "nat \<Rightarrow> string" where
  "show_nat n = (if n < 10 then [''0123456789'' ! n]
                 else show_nat (n div 10) @ [''0123456789'' ! (n mod 10)])"

declare show_nat.simps [simp del]

definition show_int :: "int \<Rightarrow> string" where
  "show_int i = (if i < 0 then CHR ''-'' # show_nat (nat (- i)) else show_nat (nat i))"

fun join_comma :: "string list \<Rightarrow> string" where
  "join_comma [] = []"
| "join_comma [s] = s"
| "join_comma (s # t # ss) = s @ '','' @ join_comma (t # ss)"

text \<open>\<^verbatim>\<open>String(v)\<close> on a JSON value.\<close>

fun ToString :: "json \<Rightarrow> string" where
  "ToString JNull = ''null''"
| "ToString (JBool b) = (if b then ''true'' else ''false'')"
| "ToString (JNum n) = show_int n"
| "ToString (JStr s) = s"
| "ToString (JArr xs) = join_comma (map (\<lambda>x. if x = JNull then [] else ToString x) xs)"
| "ToString (JObj kvs) = ''[object Object]''"

text \<open>Truthiness of a value (\<open>None\<close> is \<^verbatim>\<open>undefined\<close>).\<close>

fun truthy :: "json option \<Rightarrow> bool" where
  "truthy None = False"
| "truthy (Some JNull) = False"
| "truthy (Some (JBool b)) = b"
| "truthy (Some (JNum n)) = (n \<noteq> 0)"
| "truthy (Some (JStr s)) = (s \<noteq> [])"
| "truthy (Some (JArr xs)) = True"
| "truthy (Some (JObj kvs)) = True"

text \<open>\<^verbatim>\<open>p && typeof p === 'object'\<close>: arrays and objects, not \<^verbatim>\<open>null\<close>.\<close>

fun is_object :: "json \<Rightarrow> bool" where
  "is_object (JArr xs) = True"
| "is_object (JObj kvs) = True"
| "is_object v = False"

text \<open>
  \<^verbatim>\<open>p.k\<close> for the named task fields the server reads; such a name is never an own property
  of an array.
\<close>

fun field :: "json \<Rightarrow> string \<Rightarrow> json option" where
  "field (JObj kvs) k = map_of kvs k"
| "field v k = None"

text \<open>The own enumerable properties that a spread or a rest pattern copies.\<close>

fun entries_of :: "json \<Rightarrow> (string \<times> json) list" where
  "entries_of (JObj kvs) = kvs"
| "entries_of (JArr xs) = zip (map show_nat [0..<length xs]) xs"
| "entries_of v = []"

text \<open>\<^verbatim>\<open>{ ...a, ...b }\<close>: a key of \<open>a\<close> keeps its place, a new key is appended.\<close>

definition spread :: "(string \<times> json) list \<Rightarrow> (string \<times> json) list \<Rightarrow> (string \<times> json) list" where
  "spread a b = fold (\<lambda>(k, v). AList.update k v) b a"

text \<open>
  \<^verbatim>\<open>s.trim()\<close>, with the white space characters of ASCII (the other characters that
  \<^verbatim>\<open>trim\<close> strips take more than one byte and are not modelled).
\<close>

definition is_ws :: "char \<Rightarrow> bool" where
  "is_ws c = (c \<in> set [CHR '' '', CHR 0x09, CHR 0x0A, CHR 0x0B, CHR 0x0C, CHR 0x0D])"

definition trim :: "string \<Rightarrow> string" where
  "trim s = rev (dropWhile is_ws (rev (dropWhile is_ws s)))"

text \<open>\<^verbatim>\<open>String(p.id || '').trim()\<close>, the id under which \<^verbatim>\<open>dedupeProjects\<close> and the guardian know a task.\<close>

definition task_id :: "json \<Rightarrow> string" where
  "task_id p = trim (if truthy (field p ''id'') then ToString (the (field p ''id'')) else [])"

text \<open>
  \<^verbatim>\<open>Date.parse\<close> is a built-in of the runtime; it is a parameter of the model, \<open>None\<close> being
  \<^verbatim>\<open>NaN\<close>. \<^verbatim>\<open>Date.parse(p.updated_date || '') || 0\<close>:
\<close>

type_synonym date_parse = "string \<Rightarrow> int option"

definition updTime :: "date_parse \<Rightarrow> json \<Rightarrow> int" where
  "updTime dp p =
     (case dp (if truthy (field p ''updated_date'') then ToString (the (field p ''updated_date'')) else [])
      of None \<Rightarrow> 0 | Some t \<Rightarrow> t)"

section \<open>The task store\<close>

subsection \<open>\<^verbatim>\<open>dedupeProjects\<close>\<close>

text \<open>
  The \<^verbatim>\<open>Map\<close> of the source is an association list in insertion order: \<^verbatim>\<open>map.set\<close> on a
  key that is present replaces the value in place. One iteration of the loop:
\<close>

definition dedupe_step :: "date_parse \<Rightarrow> json \<Rightarrow> (string \<times> json) list \<Rightarrow> (string \<times> json) list" where
  "dedupe_step dp p m =
     (if \<not> is_object p then m
      else if task_id p = [] then m
      else (case map_of m (task_id p) of
              None \<Rightarrow> AList.update (task_id p) p m
            | Some prev \<Rightarrow>
                if updTime dp prev < updTime dp p then AList.update (task_id p) p m else m))"

definition dedupeProjects :: "date_parse \<Rightarrow> json list \<Rightarrow> json list" where
  "dedupeProjects dp items = map snd (fold (dedupe_step dp) items [])"

subsection \<open>The file \<^verbatim>\<open>tasks.json\<close>\<close>

text \<open>
  The state of the store is the parsed content of the file (\<open>None\<close> when the file is
  missing or does not parse), whether \<^verbatim>\<open>fs.writeFileSync\<close> succeeds, and the documents
  written so far, oldest first. \<^verbatim>\<open>JSON.stringify\<close> followed by \<^verbatim>\<open>JSON.parse\<close> gives a JSON
  value back unchanged, so a written document is kept as the value.
\<close>

record store =
  tasks_file :: "json option"
  fs_writable :: bool
  written :: "json list"

text \<open>\<^verbatim>\<open>const { status, runtime_pid, ...rest } = p; return rest\<close> inside \<^verbatim>\<open>writeProjectsFile\<close>.\<close>

definition sanitize :: "json \<Rightarrow> json" where
  "sanitize p =
     (if \<not> is_object p then p
      else JObj (filter (\<lambda>(k, v). k \<noteq> ''status'' \<and> k \<noteq> ''runtime_pid'') (entries_of p)))"

definition writeProjectsFile :: "json list \<Rightarrow> 'a store_scheme \<Rightarrow> 'a store_scheme" where
  "writeProjectsFile items s =
     (if fs_writable s
      then s\<lparr>tasks_file := Some (JArr (map sanitize items)),
             written := written s @ [JArr (map sanitize items)]\<rparr>
      else s)"

definition readProjectsFile :: "date_parse \<Rightarrow> 'a store_scheme \<Rightarrow> json list" where
  "readProjectsFile dp s =
     (case tasks_file s of
        Some (JArr arr) \<Rightarrow> dedupeProjects dp arr
      | _ \<Rightarrow> [])"

text \<open>\<^verbatim>\<open>items.findIndex(f)\<close>, \<open>None\<close> for \<^verbatim>\<open>-1\<close>.\<close>

fun findIndex :: "('a \<Rightarrow> bool) \<Rightarrow> 'a list \<Rightarrow> nat option" where
  "findIndex f [] = None"
| "findIndex f (x # xs) = (if f x then Some 0 else map_option Suc (findIndex f xs))"

text \<open>
  \<^verbatim>\<open>a === b\<close> on two property values: equal primitives. Two objects or arrays obtained from
  different parses are never the same reference.
\<close>

definition strict_eq :: "json option \<Rightarrow> json option \<Rightarrow> bool" where
  "strict_eq a b =
     (a = b \<and> (case a of Some (JArr xs) \<Rightarrow> False | Some (JObj kvs) \<Rightarrow> False | _ \<Rightarrow> True))"

text \<open>
  \<^verbatim>\<open>patchProject(id, patch, opts)\<close>; \<open>skip\<close> is \<^verbatim>\<open>opts.skipUpdatedDate\<close> and \<open>now\<close> is
  \<^verbatim>\<open>new Date().toISOString()\<close>.
\<close>

definition patchProject ::
  "date_parse \<Rightarrow> string \<Rightarrow> (string \<times> json) list \<Rightarrow> bool \<Rightarrow> string \<Rightarrow> 'a store_scheme \<Rightarrow> 'a store_scheme" where
  "patchProject dp tid patch skip now s =
     (let items = readProjectsFile dp s in
      case findIndex (\<lambda>p. strict_eq (field p ''id'') (Some (JStr tid))) items of
        None \<Rightarrow> s
      | Some idx \<Rightarrow>
          let updated = spread (entries_of (items ! idx)) patch;
              updated = (if \<not> skip then AList.update ''updated_date'' (JStr now) updated else updated)
          in writeProjectsFile (items[idx := JObj updated]) s)"

subsection \<open>The HTTP handlers of the store\<close>

text \<open>A response is the HTTP status and the JSON body.\<close>

type_synonym response = "nat \<times> json"

definition ok_true :: response where
  "ok_true = (200, JObj [(''ok'', JBool True)])"

text \<open>\<^verbatim>\<open>GET /api/projects\<close>\<close>

definition list_handler :: "date_parse \<Rightarrow> 'a store_scheme \<Rightarrow> response" where
  "list_handler dp s = (200, JArr (readProjectsFile dp s))"

text \<open>
  \<^verbatim>\<open>POST /api/projects\<close>; \<open>data\<close> is the body, \<open>gen\<close> the result of \<^verbatim>\<open>genId()\<close>. The defaults
  \<^verbatim>\<open>port\<close> and \<^verbatim>\<open>last_started\<close> are \<^verbatim>\<open>undefined\<close>, which \<^verbatim>\<open>JSON.stringify\<close> leaves out: they
  are not listed.
\<close>

definition new_project :: "json \<Rightarrow> string \<Rightarrow> string \<Rightarrow> (string \<times> json) list" where
  "new_project data now gen =
     spread
       [(''id'', (case field data ''id'' of
                    Some (JStr i) \<Rightarrow> if i \<noteq> [] then JStr i else JStr gen
                  | _ \<Rightarrow> JStr gen)),
        (''name'', JStr []),
        (''description'', JStr []),
        (''group'', JStr []),
        (''category'', JStr ''other''),
        (''working_directory'', JStr []),
        (''start_command'', JStr []),
        (''stop_command'', JStr []),
        (''environment_variables'', JObj []),
        (''auto_restart'', JBool False),
        (''max_restarts'', JNum 5),
        (''restart_interval'', JNum 15),
        (''scheduled_start'', JStr []),
        (''scheduled_stop'', JStr []),
        (''restart_count'', JNum 0),
        (''manual_stopped'', JBool False),
        (''was_running_before_shutdown'', JBool False),
        (''notes'', JStr []),
        (''order_index'', JNum 0),
        (''created_date'', JStr now),
        (''updated_date'', JStr now)]
       (entries_of data)"

definition create_handler ::
  "date_parse \<Rightarrow> json \<Rightarrow> string \<Rightarrow> string \<Rightarrow> 'a store_scheme \<Rightarrow> response \<times> 'a store_scheme" where
  "create_handler dp data now gen s =
     (let project = new_project data now gen;
          items = readProjectsFile dp s
      in case findIndex (\<lambda>p. strict_eq (field p ''id'') (map_of project ''id'')) items of
           Some idx \<Rightarrow> ((200, items ! idx), s)
         | None \<Rightarrow> ((200, JObj project), writeProjectsFile (items @ [JObj project]) s))"

text \<open>\<^verbatim>\<open>PUT /api/projects/:id\<close>\<close>

definition update_handler ::
  "date_parse \<Rightarrow> string \<Rightarrow> json \<Rightarrow> string \<Rightarrow> 'a store_scheme \<Rightarrow> response \<times> 'a store_scheme" where
  "update_handler dp tid data now s =
     (let items = readProjectsFile dp s
      in case findIndex (\<lambda>p. strict_eq (field p ''id'') (Some (JStr tid))) items of
           None \<Rightarrow> ((404, JObj [(''error'', JStr ''not found'')]), s)
         | Some idx \<Rightarrow>
             let updated = AList.update ''updated_date'' (JStr now)
                             (spread (entries_of (items ! idx)) (entries_of data))
             in ((200, JObj updated), writeProjectsFile (items[idx := JObj updated]) s))"

text \<open>The store part of \<^verbatim>\<open>DELETE /api/projects/:id\<close> (step 2 of the handler).\<close>

definition delete_config :: "date_parse \<Rightarrow> string \<Rightarrow> 'a store_scheme \<Rightarrow> 'a store_scheme" where
  "delete_config dp tid s =
     (let items = readProjectsFile dp s
      in case findIndex (\<lambda>p. strict_eq (field p ''id'') (Some (JStr tid))) items of
           None \<Rightarrow> s
         | Some idx \<Rightarrow>
             writeProjectsFile (filter (\<lambda>p. \<not> strict_eq (field p ''id'') (Some (JStr tid))) items) s)"

text \<open>\<^verbatim>\<open>POST /api/projects/dedupe\<close>\<close>

definition dedupe_handler :: "date_parse \<Rightarrow> 'a store_scheme \<Rightarrow> response \<times> 'a store_scheme" where
  "dedupe_handler dp s =
     (let items = readProjectsFile dp s;
          afterItems = dedupeProjects dp items
      in ((200, JObj [(''ok'', JBool True),
                      (''removed'', JNum (int (length items) - int (length afterItems))),
                      (''total'', JNum (int (length afterItems)))]),
          writeProjectsFile afterItems s))"

section \<open>Child processes and the process registry\<close>

text \<open>
  A \<^verbatim>\<open>ChildProcess\<close> object lives in a heap of children, addressed by the order of
  spawning, since the registry entry, the event handlers and the timer of a request all
  refer to the same object. With the object are kept the two ring buffers that its
  \<^verbatim>\<open>data\<close> handlers fill and the variables its handlers close over: the task id, and for
  \<^verbatim>\<open>POST /api/projects/start\<close> the flag \<^verbatim>\<open>responded\<close>, the response once sent and the
  delay given to \<^verbatim>\<open>setTimeout\<close>.

  The runtime creates a child with \<^verbatim>\<open>exitCode === null\<close> and \<^verbatim>\<open>killed === false\<close>. It sets
  \<^verbatim>\<open>exitCode\<close> just before it emits \<^verbatim>\<open>exit\<close> (when the child ended by a signal it sets
  \<^verbatim>\<open>signalCode\<close> and leaves \<^verbatim>\<open>exitCode\<close> null), or before it emits \<^verbatim>\<open>error\<close> for a spawn that
  failed. \<^verbatim>\<open>killed\<close> is set by \<^verbatim>\<open>child.kill()\<close> only, which the server never calls.
\<close>

datatype handler_kind = StartRequest | Guardian

record child =
  pid :: "nat option"
  exitCode :: "int option"
  signalCode :: "string option"
  killed :: bool
  stdoutBuf :: "string list"
  stderrBuf :: "string list"
  owner :: string
  kind :: handler_kind
  responded :: bool
  reply :: "response option"
  timeout_ms :: int

datatype entry_status = Running | Stopped

text \<open>
  A registry entry: \<^verbatim>\<open>child\<close> (the address of the object), \<^verbatim>\<open>status\<close>, \<^verbatim>\<open>exitCode\<close> and
  \<^verbatim>\<open>signal\<close> once an event handler has set them, \<^verbatim>\<open>command\<close>, \<^verbatim>\<open>startedAt\<close>. The entry's
  \<^verbatim>\<open>stdoutBuf\<close> and \<^verbatim>\<open>stderrBuf\<close> are the buffers of its child. \<^verbatim>\<open>cwd\<close> and \<^verbatim>\<open>env\<close> are read
  by no operation modelled here.
\<close>

record entry =
  child_ref :: nat
  status :: entry_status
  exitInfo :: "(int option \<times> string option) option"
  command :: string
  startedAt :: string

datatype effect =
    Spawn string string
  | TreeKill "nat option" string
  | RegistryDelete string
  | GuardianAttempt string int bool

text \<open>
  The state of the server: the store, the \<^verbatim>\<open>processes\<close> and \<^verbatim>\<open>guardianState\<close> maps, the
  children, and the calls made so far to the launcher (\<open>Spawn id command\<close>), to
  \<^verbatim>\<open>treeKill\<close>, to \<^verbatim>\<open>processes.delete\<close> and, by the guardian, to \<^verbatim>\<open>guardianAttemptStart\<close>
  (\<open>GuardianAttempt id now ok\<close>, with the tick's \<^verbatim>\<open>now\<close> and the result).
\<close>

record sys = store +
  processes :: "string \<rightharpoonup> entry"
  children :: "nat \<rightharpoonup> child"
  spawned :: nat
  guardianState :: "string \<rightharpoonup> int"
  effects :: "effect list"

definition isRunning :: "child \<Rightarrow> bool" where
  "isRunning c = (exitCode c = None \<and> \<not> killed c)"

definition entry_running :: "sys \<Rightarrow> entry \<Rightarrow> bool" where
  "entry_running s e = (case children s (child_ref e) of None \<Rightarrow> False | Some c \<Rightarrow> isRunning c)"

definition isTaskRunning :: "sys \<Rightarrow> string \<Rightarrow> bool" where
  "isTaskRunning s tid = (case processes s tid of None \<Rightarrow> False | Some e \<Rightarrow> entry_running s e)"

text \<open>\<^verbatim>\<open>ringBuffer(limit).push(line)\<close>\<close>

definition rb_push :: "nat \<Rightarrow> string \<Rightarrow> string list \<Rightarrow> string list" where
  "rb_push limit line arr = (if limit < length (arr @ [line]) then tl (arr @ [line]) else arr @ [line])"

text \<open>
  \<^verbatim>\<open>spawnWithShell(command, ...)\<close> with the handlers attached and \<^verbatim>\<open>processes.set(id, ...)\<close>:
  a new child, whose pid \<open>ospid\<close> the operating system chooses (\<^verbatim>\<open>undefined\<close> when the
  spawn fails), with empty buffers of capacity 500, and a new entry with status
  \<^verbatim>\<open>'running'\<close>.
\<close>

definition spawn_entry ::
  "handler_kind \<Rightarrow> string \<Rightarrow> string \<Rightarrow> nat option \<Rightarrow> int \<Rightarrow> string \<Rightarrow> sys \<Rightarrow> sys" where
  "spawn_entry k tid cmd ospid ms now s =
     s\<lparr>children := (children s)(spawned s \<mapsto>
          \<lparr>pid = ospid, exitCode = None, signalCode = None, killed = False,
           stdoutBuf = [], stderrBuf = [], owner = tid, kind = k,
           responded = False, reply = None, timeout_ms = ms\<rparr>),
       processes := (processes s)(tid \<mapsto>
          \<lparr>child_ref = spawned s, status = Running, exitInfo = None,
           command = cmd, startedAt = now\<rparr>),
       spawned := Suc (spawned s),
       effects := effects s @ [Spawn tid cmd]\<rparr>"

subsection \<open>\<^verbatim>\<open>POST /api/projects/start\<close>\<close>

text \<open>
  The synchronous part of the handler. \<open>tid\<close> and \<open>start_command\<close> are the strings of
  the body (empty when absent), \<open>startup_timeout_ms\<close> the field of that name. The response
  is sent later, by the first of the \<^verbatim>\<open>error\<close> handler, the \<^verbatim>\<open>exit\<close> handler and the timer.
\<close>

definition startup_window :: "json option \<Rightarrow> int" where
  "startup_window startup_timeout_ms =
     (case startup_timeout_ms of Some (JNum n) \<Rightarrow> if 0 < n then n else 2000 | _ \<Rightarrow> 2000)"

definition kill_existing :: "string \<Rightarrow> sys \<Rightarrow> sys" where
  "kill_existing tid s =
     (case processes s tid of
        None \<Rightarrow> s
      | Some e \<Rightarrow>
          (case children s (child_ref e) of
             None \<Rightarrow> s
           | Some c \<Rightarrow> if isRunning c then s\<lparr>effects := effects s @ [TreeKill (pid c) ''SIGTERM'']\<rparr> else s))"

definition start_request ::
  "date_parse \<Rightarrow> string \<Rightarrow> string \<Rightarrow> json option \<Rightarrow> nat option \<Rightarrow> string \<Rightarrow> sys \<Rightarrow> response option \<times> sys" where
  "start_request dp tid start_command startup_timeout_ms ospid now s =
     (if tid = [] \<or> start_command = []
      then (Some (400, JObj [(''error'', JStr ''id and start_command are required'')]), s)
      else (None,
            patchProject dp tid [(''was_running_before_shutdown'', JBool True)] False now
              (spawn_entry StartRequest tid start_command ospid
                 (startup_window startup_timeout_ms) now (kill_existing tid s))))"

subsection \<open>Events of a child\<close>

datatype event =
    StdoutData string
  | StderrData string
  | ErrorEvent string "int option"
  | ExitEvent "int option" "string option"
  | TimerEvent

text \<open>
  \<open>ErrorEvent msg errno\<close> is \<^verbatim>\<open>error\<close> with \<^verbatim>\<open>String(err) = msg\<close>, \<open>errno\<close> being the negative
  code the runtime stored in \<^verbatim>\<open>exitCode\<close> when the spawn failed. \<open>ExitEvent code signal\<close>
  is \<^verbatim>\<open>exit\<close>. \<open>TimerEvent\<close> is the callback given to \<^verbatim>\<open>setTimeout\<close>.
\<close>

definition json_opt_num :: "int option \<Rightarrow> json" where
  "json_opt_num c = (case c of None \<Rightarrow> JNull | Some n \<Rightarrow> JNum n)"

definition json_opt_str :: "string option \<Rightarrow> json" where
  "json_opt_str c = (case c of None \<Rightarrow> JNull | Some x \<Rightarrow> JStr x)"

definition logs_json :: "child \<Rightarrow> json" where
  "logs_json c = JObj [(''stdout'', JArr (map JStr (stdoutBuf c))), (''stderr'', JArr (map JStr (stderrBuf c)))]"

definition respondOk :: "child \<Rightarrow> child" where
  "respondOk c =
     (if responded c then c
      else c\<lparr>responded := True,
             reply := Some (200, JObj ((''ok'', JBool True) #
                         (case pid c of None \<Rightarrow> [] | Some n \<Rightarrow> [(''pid'', JNum (int n))])))\<rparr>)"

definition respondFail :: "string \<Rightarrow> int option \<Rightarrow> string option \<Rightarrow> child \<Rightarrow> child" where
  "respondFail message code signal c =
     (if responded c then c
      else c\<lparr>responded := True,
             reply := Some (500, JObj [(''ok'', JBool False), (''error'', JStr message),
                                       (''code'', json_opt_num code), (''signal'', json_opt_str signal),
                                       (''logs'', logs_json c)])\<rparr>)"

definition exit_message :: "int option \<Rightarrow> string option \<Rightarrow> string" where
  "exit_message code signal =
     ''process exited with code '' @ (case code of None \<Rightarrow> ''null'' | Some n \<Rightarrow> show_int n) @
     (case signal of None \<Rightarrow> [] | Some x \<Rightarrow> if x = [] then [] else '', signal '' @ x)"

text \<open>\<^verbatim>\<open>const entry = processes.get(id); if (entry) { entry.status = 'stopped'; ... }\<close>\<close>

definition mark_stopped :: "string \<Rightarrow> int option \<Rightarrow> string option \<Rightarrow> sys \<Rightarrow> sys" where
  "mark_stopped tid code signal s =
     (case processes s tid of
        None \<Rightarrow> s
      | Some e \<Rightarrow> s\<lparr>processes := (processes s)(tid \<mapsto> e\<lparr>status := Stopped, exitInfo := Some (code, signal)\<rparr>)\<rparr>)"

definition set_child :: "nat \<Rightarrow> child \<Rightarrow> sys \<Rightarrow> sys" where
  "set_child h c s = s\<lparr>children := (children s)(h \<mapsto> c)\<rparr>"

text \<open>One event of the child at address \<open>h\<close>, handled by the handlers attached to it.\<close>

definition deliver :: "nat \<times> event \<Rightarrow> sys \<Rightarrow> sys" where
  "deliver he s =
     (case children s (fst he) of
        None \<Rightarrow> s
      | Some c \<Rightarrow>
          (case snd he of
             StdoutData d \<Rightarrow> set_child (fst he) (c\<lparr>stdoutBuf := rb_push 500 d (stdoutBuf c)\<rparr>) s
           | StderrData d \<Rightarrow> set_child (fst he) (c\<lparr>stderrBuf := rb_push 500 d (stderrBuf c)\<rparr>) s
           | ErrorEvent msg errno \<Rightarrow>
               (let c1 = (case errno of None \<Rightarrow> c | Some n \<Rightarrow> c\<lparr>exitCode := Some n\<rparr>);
                    s1 = mark_stopped (owner c) (Some (- 1)) None s
                in set_child (fst he)
                     (if kind c = StartRequest then respondFail (''spawn error: '' @ msg) None None c1 else c1) s1)
           | ExitEvent code signal \<Rightarrow>
               (let c1 = (case signal of None \<Rightarrow> c\<lparr>exitCode := code\<rparr> | Some x \<Rightarrow> c\<lparr>signalCode := Some x\<rparr>);
                    s1 = mark_stopped (owner c) code signal s
                in set_child (fst he)
                     (if kind c = StartRequest then respondFail (exit_message code signal) code signal c1 else c1) s1)
           | TimerEvent \<Rightarrow>
               (if kind c \<noteq> StartRequest \<or> responded c then s
                else if isRunning c then set_child (fst he) (respondOk c) s
                else set_child (fst he) (respondFail ''process not running after startup timeout'' None None c) s)))"

definition run_events :: "(nat \<times> event) list \<Rightarrow> sys \<Rightarrow> sys" where
  "run_events evs s = fold deliver evs s"

subsection \<open>Status, logs and deletion\<close>

text \<open>\<^verbatim>\<open>GET /api/projects/status/:id\<close>\<close>

definition status_handler :: "string \<Rightarrow> sys \<Rightarrow> response" where
  "status_handler tid s =
     (let running = isTaskRunning s tid;
          p = (if running
               then (case processes s tid of
                       None \<Rightarrow> None
                     | Some e \<Rightarrow> (case children s (child_ref e) of None \<Rightarrow> None | Some c \<Rightarrow> pid c))
               else None)
      in (200, JObj [(''running'', JBool running),
                     (''status'', JStr (if running then ''running'' else ''stopped'')),
                     (''pid'', (case p of None \<Rightarrow> JNull | Some n \<Rightarrow> if n = 0 then JNull else JNum (int n)))]))"

text \<open>\<^verbatim>\<open>GET /api/projects/logs/:id\<close>\<close>

definition logs_handler :: "string \<Rightarrow> sys \<Rightarrow> response" where
  "logs_handler tid s =
     (case processes s tid of
        None \<Rightarrow> (200, JObj [(''stdout'', JArr []), (''stderr'', JArr [])])
      | Some e \<Rightarrow>
          (case children s (child_ref e) of
             None \<Rightarrow> (200, JObj [(''stdout'', JArr []), (''stderr'', JArr [])])
           | Some c \<Rightarrow> (200, logs_json c)))"

text \<open>
  \<^verbatim>\<open>DELETE /api/projects/:id\<close>. \<^verbatim>\<open>treeKill\<close> given a callback reports an error to the
  callback and does not throw, so the handler goes on to \<^verbatim>\<open>processes.delete(id)\<close>.
\<close>

definition delete_handler :: "date_parse \<Rightarrow> string \<Rightarrow> sys \<Rightarrow> response \<times> sys" where
  "delete_handler dp tid s =
     (let s1 = kill_existing tid s;
          s2 = s1\<lparr>processes := (processes s1)(tid := None), effects := effects s1 @ [RegistryDelete tid]\<rparr>
      in (ok_true, delete_config dp tid s2))"

section \<open>The guardian loop\<close>

text \<open>
  What a tick takes from its surroundings: \<^verbatim>\<open>Date.now()\<close> read at the start of the tick,
  the time stamp \<^verbatim>\<open>new Date().toISOString()\<close>, the pid the operating system gives to the
  child at an address, and what the rest of the system does to the state while
  \<^verbatim>\<open>waitForRunning\<close> sleeps.
\<close>

record tick_env =
  now_ms :: int
  now_iso :: string
  os_pid :: "nat \<Rightarrow> nat option"
  during_sleep :: "sys \<Rightarrow> sys"

text \<open>
  \<^verbatim>\<open>waitForRunning(id, attempts, intervalMs)\<close>: the check comes before the sleep, in every
  round of the loop.
\<close>

fun waitForRunning :: "(sys \<Rightarrow> sys) \<Rightarrow> string \<Rightarrow> nat \<Rightarrow> sys \<Rightarrow> bool \<times> sys" where
  "waitForRunning sleep tid 0 s = (isTaskRunning s tid, s)"
| "waitForRunning sleep tid (Suc n) s =
     (if isTaskRunning s tid then (True, s) else waitForRunning sleep tid n (sleep s))"

text \<open>
  \<^verbatim>\<open>guardianAttemptStart(project)\<close>. The number of rounds is
  \<^verbatim>\<open>Math.max(2, Math.round(2000 / 800))\<close>, and \<^verbatim>\<open>Math.round\<close> rounds a half up.
\<close>

definition guardianAttemptStart :: "tick_env \<Rightarrow> json \<Rightarrow> sys \<Rightarrow> bool \<times> sys" where
  "guardianAttemptStart te project s =
     (let tid = task_id project;
          start_command = field project ''start_command''
      in if tid = [] \<or> \<not> truthy start_command \<or> trim (ToString (the start_command)) = []
         then (False, s)
         else if isTaskRunning s tid then (True, s)
         else waitForRunning (during_sleep te) tid (max 2 (nat ((2 * 2000 + 800) div (2 * 800))))
                (spawn_entry Guardian tid (ToString (the start_command)) (os_pid te (spawned s)) 0
                   (now_iso te) s))"

text \<open>\<^verbatim>\<open>typeof v === 'number' ? v : d\<close>\<close>

definition num_or :: "json option \<Rightarrow> int \<Rightarrow> int" where
  "num_or v d = (case v of Some (JNum n) \<Rightarrow> n | _ \<Rightarrow> d)"

text \<open>The body of the loop \<^verbatim>\<open>for (const p of items)\<close> in \<^verbatim>\<open>setupGuardian\<close>.\<close>

definition guardian_task :: "date_parse \<Rightarrow> tick_env \<Rightarrow> json \<Rightarrow> sys \<Rightarrow> sys" where
  "guardian_task dp te p s =
     (if \<not> is_object p then s
      else if task_id p = [] then s
      else if \<not> truthy (field p ''auto_restart'') \<or> truthy (field p ''manual_stopped'')
              \<or> \<not> truthy (field p ''was_running_before_shutdown'')
      then s\<lparr>guardianState := (guardianState s)(task_id p := None)\<rparr>
      else
        let maxRestarts = num_or (field p ''max_restarts'') 5;
            intervalSec = num_or (field p ''restart_interval'') 15;
            currentCount = num_or (field p ''restart_count'') 0
        in if 0 < maxRestarts \<and> maxRestarts \<le> currentCount then s
           else if isTaskRunning s (task_id p)
           then s\<lparr>guardianState := (guardianState s)(task_id p := None)\<rparr>
           else if now_ms te < (case guardianState s (task_id p) of None \<Rightarrow> 0 | Some t \<Rightarrow> t) then s
           else
             let r = guardianAttemptStart te p s;
                 s1 = (snd r)\<lparr>effects := effects (snd r) @ [GuardianAttempt (task_id p) (now_ms te) (fst r)]\<rparr>
             in if fst r
                then patchProject dp (task_id p)
                       [(''restart_count'', JNum 0),
                        (''manual_stopped'', JBool False),
                        (''last_started'', JStr (now_iso te)),
                        (''was_running_before_shutdown'', JBool True)]
                       False (now_iso te)
                       (s1\<lparr>guardianState := (guardianState s1)(task_id p := None)\<rparr>)
                else patchProject dp (task_id p)
                       [(''restart_count'', JNum (currentCount + 1))]
                       False (now_iso te)
                       (s1\<lparr>guardianState := (guardianState s1)(task_id p \<mapsto>
                              now_ms te + max 1 intervalSec * 1000)\<rparr>))"

text \<open>One tick: the tasks are read once, then handled in order.\<close>

definition guardian_tick :: "date_parse \<Rightarrow> tick_env \<Rightarrow> sys \<Rightarrow> sys" where
  "guardian_tick dp te s = fold (guardian_task dp te) (readProjectsFile dp s) s"

section \<open>Routing\<close>

text \<open>
  The routes in the order in which the server registers them. A path is its list of
  segments; \<^verbatim>\<open>:id\<close> and \<^verbatim>\<open>:port\<close> match one segment that is not empty. When the \<^verbatim>\<open>dist\<close>
  directory exists (\<open>static\<close>), a \<^verbatim>\<open>GET\<close> that matches no route is answered by the static
  files or the catch-all \<^verbatim>\<open>app.get('*')\<close>.
\<close>

datatype http_method = GET | POST | PUT | DELETE

datatype seg = Lit string | Param

datatype route =
    RStart | RStop | RStatus | RLogs | RList | RCreate | RUpdate | RDelete | RDedupe
  | RSearch | RByPort | RKill | RRestart | RStatic

fun match_path :: "seg list \<Rightarrow> string list \<Rightarrow> string list option" where
  "match_path [] [] = Some []"
| "match_path (Lit l # ps) (x # xs) = (if l = x then match_path ps xs else None)"
| "match_path (Param # ps) (x # xs) = (if x = [] then None else map_option ((#) x) (match_path ps xs))"
| "match_path ps xs = None"

definition routes :: "(http_method \<times> seg list \<times> route) list" where
  "routes =
     [(POST, [Lit ''api'', Lit ''projects'', Lit ''start''], RStart),
      (POST, [Lit ''api'', Lit ''projects'', Lit ''stop''], RStop),
      (GET, [Lit ''api'', Lit ''projects'', Lit ''status'', Param], RStatus),
      (GET, [Lit ''api'', Lit ''projects'', Lit ''logs'', Param], RLogs),
      (GET, [Lit ''api'', Lit ''projects''], RList),
      (POST, [Lit ''api'', Lit ''projects''], RCreate),
      (PUT, [Lit ''api'', Lit ''projects'', Param], RUpdate),
      (DELETE, [Lit ''api'', Lit ''projects'', Param], RDelete),
      (POST, [Lit ''api'', Lit ''projects'', Lit ''dedupe''], RDedupe),
      (GET, [Lit ''api'', Lit ''processes'', Lit ''search''], RSearch),
      (GET, [Lit ''api'', Lit ''processes'', Lit ''by-port'', Param], RByPort),
      (POST, [Lit ''api'', Lit ''processes'', Lit ''kill''], RKill),
      (POST, [Lit ''api'', Lit ''projects'', Lit ''restart''], RRestart)]"

fun first_match :: "(http_method \<times> seg list \<times> route) list \<Rightarrow> http_method \<Rightarrow> string list \<Rightarrow> (route \<times> string list) option" where
  "first_match [] m path = None"
| "first_match ((m', pat, r) # rs) m path =
     (if m' = m
      then (case match_path pat path of Some params \<Rightarrow> Some (r, params) | None \<Rightarrow> first_match rs m path)
      else first_match rs m path)"

definition dispatch :: "bool \<Rightarrow> http_method \<Rightarrow> string list \<Rightarrow> (route \<times> string list) option" where
  "dispatch static m path =
     (case first_match routes m path of
        Some rp \<Rightarrow> Some rp
      | None \<Rightarrow> if static \<and> m = GET then Some (RStatic, []) else None)"

text \<open>
  A request whose handler answers at once. \<open>None\<close> stands for the routes that answer from
  an event handler or after running a tool of the operating system (start, stop, restart,
  process discovery, static files). A request that matches no route gets the framework's
  404 and changes nothing.
\<close>

fun join_slash :: "string list \<Rightarrow> string" where
  "join_slash [] = []"
| "join_slash (x # xs) = CHR ''/'' # x @ join_slash xs"

definition method_name :: "http_method \<Rightarrow> string" where
  "method_name m = (case m of GET \<Rightarrow> ''GET'' | POST \<Rightarrow> ''POST'' | PUT \<Rightarrow> ''PUT'' | DELETE \<Rightarrow> ''DELETE'')"

definition serve ::
  "date_parse \<Rightarrow> bool \<Rightarrow> string \<Rightarrow> string \<Rightarrow> http_method \<Rightarrow> string list \<Rightarrow> json \<Rightarrow> sys \<Rightarrow> (response \<times> sys) option" where
  "serve dp static now gen m path body s =
     (case dispatch static m path of
        None \<Rightarrow> Some ((404, JStr (''Cannot '' @ method_name m @ '' '' @ join_slash path)), s)
      | Some (RStatus, [tid]) \<Rightarrow> Some (status_handler tid s, s)
      | Some (RLogs, [tid]) \<Rightarrow> Some (logs_handler tid s, s)
      | Some (RList, params) \<Rightarrow> Some (list_handler dp s, s)
      | Some (RCreate, params) \<Rightarrow> Some (create_handler dp body now gen s)
      | Some (RUpdate, [tid]) \<Rightarrow> Some (update_handler dp tid body now s)
      | Some (RDelete, [tid]) \<Rightarrow> Some (delete_handler dp tid s)
      | Some (RDedupe, params) \<Rightarrow> Some (dedupe_handler dp s)
      | _ \<Rightarrow> None)"

section \<open>Runs of the server\<close>

text \<open>
  The steps that change the state: a request answered at once, the synchronous part of
  \<^verbatim>\<open>POST /api/projects/start\<close>, an event of a child, a tick of the guardian, and a call of
  \<^verbatim>\<open>patchProject\<close> by itself.
\<close>

datatype step =
    Http bool string string http_method "string list" json
  | Start string string "json option" "nat option" string
  | Deliver nat event
  | Tick tick_env
  | Patch string "(string \<times> json) list" bool string

fun do_step :: "date_parse \<Rightarrow> step \<Rightarrow> sys \<Rightarrow> sys" where
  "do_step dp (Http static now gen m path body) s =
     (case serve dp static now gen m path body s of None \<Rightarrow> s | Some rs \<Rightarrow> snd rs)"
| "do_step dp (Start tid cmd ms ospid now) s = snd (start_request dp tid cmd ms ospid now s)"
| "do_step dp (Deliver h ev) s = deliver (h, ev) s"
| "do_step dp (Tick te) s = guardian_tick dp te s"
| "do_step dp (Patch tid patch skip now) s = patchProject dp tid patch skip now s"

definition run :: "date_parse \<Rightarrow> step list \<Rightarrow> sys \<Rightarrow> sys" where
  "run dp steps s = fold (do_step dp) steps s"

text \<open>A written document holds no \<^verbatim>\<open>status\<close> and no \<^verbatim>\<open>runtime_pid\<close> key under any task.\<close>

definition has_key :: "json \<Rightarrow> string \<Rightarrow> bool" where
  "has_key p k = (k \<in> set (map fst (entries_of p)))"

definition runtime_free :: "json \<Rightarrow> bool" where
  "runtime_free doc =
     (case doc of
        JArr ts \<Rightarrow> list_all (\<lambda>p. \<not> has_key p ''status'' \<and> \<not> has_key p ''runtime_pid'') ts
      | _ \<Rightarrow> False)"

text \<open>Every document written so far is free of runtime keys.\<close>

definition pure_log :: "'a store_scheme \<Rightarrow> bool" where
  "pure_log s = list_all runtime_free (written s)"

text \<open>The invariant of the association list that \<^verbatim>\<open>dedupeProjects\<close> builds.\<close>

definition keyed :: "(string \<times> json) list \<Rightarrow> bool" where
  "keyed m = (\<forall>(k, q) \<in> set m. task_id q = k \<and> is_object q \<and> k \<noteq> [])"

section \<open>Example inputs\<close>

text \<open>
  A \<^verbatim>\<open>Date.parse\<close> for the two time stamps of the examples, and small stores and states on
  which the theorems below are instantiated.
\<close>

definition example_parse :: date_parse where
  "example_parse x =
     (if x = ''2024-01-02T00:00:00.000Z'' then Some 86400000
      else if x = ''2024-01-01T00:00:00.000Z'' then Some 0
      else None)"



definition empty_sys :: sys where
  "empty_sys =
     \<lparr>tasks_file = None, fs_writable = True, written = [],
      processes = Map.empty, children = Map.empty, spawned = 0,
      guardianState = Map.empty, effects = []\<rparr>"

definition example_requests :: "step list" where
  "example_requests =
     [Http False ''2024-01-01T00:00:00.000Z'' ''proj_x_y'' POST [''api'', ''projects'']
        (JObj [(''id'', JStr ''t1''), (''status'', JStr ''running''), (''runtime_pid'', JNum 7)]),
      Patch ''t1'' [(''status'', JStr ''stopped''), (''restart_count'', JNum 1)] False
        ''2024-01-02T00:00:00.000Z'']"

text \<open>
  For the statement about the startup window: the events of the child at \<open>h\<close> in a list are
  only output (the child has not exited and no \<^verbatim>\<open>error\<close> has fired), the lines it wrote to
  one stream, and the content of a ring buffer after a list of lines went through it.
\<close>

definition is_data :: "event \<Rightarrow> bool" where
  "is_data ev = (case ev of StdoutData d \<Rightarrow> True | StderrData d \<Rightarrow> True | _ \<Rightarrow> False)"

definition quiet :: "nat \<Rightarrow> (nat \<times> event) list \<Rightarrow> bool" where
  "quiet h evs = list_all (\<lambda>he. fst he = h \<longrightarrow> is_data (snd he)) evs"

definition out_lines :: "nat \<Rightarrow> (nat \<times> event) list \<Rightarrow> string list" where
  "out_lines h evs = concat (map (\<lambda>he. case snd he of StdoutData d \<Rightarrow> if fst he = h then [d] else [] | _ \<Rightarrow> []) evs)"

definition err_lines :: "nat \<Rightarrow> (nat \<times> event) list \<Rightarrow> string list" where
  "err_lines h evs = concat (map (\<lambda>he. case snd he of StderrData d \<Rightarrow> if fst he = h then [d] else [] | _ \<Rightarrow> []) evs)"

definition last_lines :: "nat \<Rightarrow> string list \<Rightarrow> string list" where
  "last_lines n xs = drop (length xs - n) xs"

definition fail_body :: "string \<Rightarrow> int option \<Rightarrow> string option \<Rightarrow> string list \<Rightarrow> string list \<Rightarrow> json" where
  "fail_body message code signal out err =
     JObj [(''ok'', JBool False), (''error'', JStr message),
           (''code'', json_opt_num code), (''signal'', json_opt_str signal),
           (''logs'', JObj [(''stdout'', JArr (map JStr out)), (''stderr'', JArr (map JStr err))])]"

definition entry_status_of :: "sys \<Rightarrow> string \<Rightarrow> entry_status option" where
  "entry_status_of s tid = map_option status (processes s tid)"

definition reply_of :: "sys \<Rightarrow> nat \<Rightarrow> response option" where
  "reply_of s h = (case children s h of None \<Rightarrow> None | Some c \<Rightarrow> reply c)"

text \<open>The child at \<open>h\<close> is the one a start request for \<open>tid\<close> spawned and has not answered for.\<close>

definition pending :: "nat \<Rightarrow> string \<Rightarrow> nat option \<Rightarrow> string list \<Rightarrow> string list \<Rightarrow> sys \<Rightarrow> bool" where
  "pending h tid ospid out err s =
     (processes s tid \<noteq> None \<and>
      (case children s h of
         None \<Rightarrow> False
       | Some c \<Rightarrow> \<not> responded c \<and> reply c = None \<and> exitCode c = None \<and> \<not> killed c
                   \<and> kind c = StartRequest \<and> owner c = tid \<and> pid c = ospid
                   \<and> stdoutBuf c = out \<and> stderrBuf c = err))"

definition answered :: "nat \<Rightarrow> response \<Rightarrow> sys \<Rightarrow> bool" where
  "answered h r s = (case children s h of None \<Rightarrow> False | Some c \<Rightarrow> responded c \<and> reply c = Some r)"

definition push_out :: "nat \<Rightarrow> nat \<times> event \<Rightarrow> string list \<Rightarrow> string list" where
  "push_out h he out = (case snd he of StdoutData d \<Rightarrow> if fst he = h then rb_push 500 d out else out | _ \<Rightarrow> out)"

definition push_err :: "nat \<Rightarrow> nat \<times> event \<Rightarrow> string list \<Rightarrow> string list" where
  "push_err h he err = (case snd he of StderrData d \<Rightarrow> if fst he = h then rb_push 500 d err else err | _ \<Rightarrow> err)"

definition ok_body :: "nat option \<Rightarrow> json" where
  "ok_body ospid = JObj ((''ok'', JBool True) # (case ospid of None \<Rightarrow> [] | Some n \<Rightarrow> [(''pid'', JNum (int n))]))"

text \<open>
  The state after \<^verbatim>\<open>POST /api/projects/start\<close> for the id \<^verbatim>\<open>t1\<close>, which no stored task has,
  and after the child wrote one chunk to its standard output.
\<close>

definition example_live :: sys where
  "example_live =
     run_events [(0, StdoutData ''hello'')]
       (snd (start_request example_parse ''t1'' ''sleep 60'' None (Some 4242)
               ''2024-01-01T00:00:00.000Z'' empty_sys))"

text \<open>
  Two stored tasks that the guardian is to watch: \<^verbatim>\<open>t4\<close>, whose command \<^verbatim>\<open>false\<close> exits with
  code 1 as soon as it runs, with a cap of 2 restarts and 60 seconds between attempts, and
  \<^verbatim>\<open>t5\<close>, which has no start command. Ticks come every 5 seconds; each child that the
  guardian spawned for \<^verbatim>\<open>t4\<close> has exited with code 1 before the next tick.
\<close>

definition crash_task :: json where
  "crash_task =
     JObj [(''id'', JStr ''t4''), (''start_command'', JStr ''false''),
           (''auto_restart'', JBool True), (''max_restarts'', JNum 2),
           (''restart_interval'', JNum 60), (''restart_count'', JNum 1),
           (''manual_stopped'', JBool False), (''was_running_before_shutdown'', JBool True),
           (''updated_date'', JStr ''2024-01-01T00:00:00.000Z'')]"

definition blank_task :: json where
  "blank_task =
     JObj [(''id'', JStr ''t5''), (''start_command'', JStr []),
           (''auto_restart'', JBool True), (''max_restarts'', JNum 2),
           (''restart_interval'', JNum 60), (''restart_count'', JNum 0),
           (''manual_stopped'', JBool False), (''was_running_before_shutdown'', JBool True),
           (''updated_date'', JStr ''2024-01-01T00:00:00.000Z'')]"

definition guarded_sys :: sys where
  "guarded_sys = empty_sys\<lparr>tasks_file := Some (JArr [crash_task, blank_task])\<rparr>"

definition example_env :: "int \<Rightarrow> tick_env" where
  "example_env now =
     \<lparr>now_ms = now, now_iso = ''2024-01-02T00:00:00.000Z'',
      os_pid = (\<lambda>h. Some (1000 + h)), during_sleep = (\<lambda>s. s)\<rparr>"

definition crash_loop :: "step list" where
  "crash_loop =
     [Tick (example_env 0), Deliver 0 (ExitEvent (Some 1) None),
      Tick (example_env 5000), Deliver 1 (ExitEvent (Some 1) None),
      Tick (example_env 10000), Deliver 2 (ExitEvent (Some 1) None)]"

text \<open>What the effects say about one task: the attempts of the guardian and the spawns.\<close>

definition concerns :: "string \<Rightarrow> effect \<Rightarrow> bool" where
  "concerns tid e =
     (case e of GuardianAttempt t now ok \<Rightarrow> t = tid | Spawn t cmd \<Rightarrow> t = tid | _ \<Rightarrow> False)"

definition stored_field :: "date_parse \<Rightarrow> sys \<Rightarrow> string \<Rightarrow> string \<Rightarrow> json option" where
  "stored_field dp s tid k =
     (case filter (\<lambda>p. task_id p = tid) (readProjectsFile dp s) of
        [] \<Rightarrow> None
      | p # ps \<Rightarrow> field p k)"

text \<open>
  The stored task known by the id \<open>i\<close> has a truthy \<^verbatim>\<open>manual_stopped\<close>; and the steps of a
  run in which only the guardian and the children act.
\<close>

definition held :: "date_parse \<Rightarrow> string \<Rightarrow> sys \<Rightarrow> bool" where
  "held dp i s = (\<exists>p \<in> set (readProjectsFile dp s). task_id p = i \<and> truthy (field p ''manual_stopped''))"

definition guardian_step :: "step \<Rightarrow> bool" where
  "guardian_step st = (case st of Tick te \<Rightarrow> True | Deliver h ev \<Rightarrow> True | _ \<Rightarrow> False)"

text \<open>A task that the user stopped, stored next to \<^verbatim>\<open>t4\<close>.\<close>

definition stopped_task :: json where
  "stopped_task =
     JObj [(''id'', JStr ''t3''), (''start_command'', JStr ''sleep 60''),
           (''auto_restart'', JBool True), (''max_restarts'', JNum 3),
           (''restart_interval'', JNum 1), (''restart_count'', JNum 0),
           (''manual_stopped'', JBool True), (''was_running_before_shutdown'', JBool True),
           (''updated_date'', JStr ''2024-01-01T00:00:00.000Z'')]"

definition stopped_sys :: sys where
  "stopped_sys = empty_sys\<lparr>tasks_file := Some (JArr [stopped_task, crash_task])\<rparr>"

text \<open>
  Two tasks stored under ids with a leading blank: \<^verbatim>\<open>" t6"\<close> has no start command and a cap
  of 2 restarts, one second apart; \<^verbatim>\<open>" t7"\<close> runs \<^verbatim>\<open>sleep 60\<close> and is stored with
  \<^verbatim>\<open>restart_count\<close> 3. The guardian knows them as \<^verbatim>\<open>t6\<close> and \<^verbatim>\<open>t7\<close>.
\<close>

definition spaced_blank_task :: json where
  "spaced_blank_task =
     JObj [(''id'', JStr '' t6''), (''start_command'', JStr []),
           (''auto_restart'', JBool True), (''max_restarts'', JNum 2),
           (''restart_interval'', JNum 1), (''restart_count'', JNum 0),
           (''manual_stopped'', JBool False), (''was_running_before_shutdown'', JBool True),
           (''updated_date'', JStr ''2024-01-01T00:00:00.000Z'')]"

definition spaced_task :: json where
  "spaced_task =
     JObj [(''id'', JStr '' t7''), (''start_command'', JStr ''sleep 60''),
           (''auto_restart'', JBool True), (''max_restarts'', JNum 5),
           (''restart_interval'', JNum 15), (''restart_count'', JNum 3),
           (''manual_stopped'', JBool False), (''was_running_before_shutdown'', JBool True),
           (''updated_date'', JStr ''2024-01-01T00:00:00.000Z'')]"

definition spaced_sys :: sys where
  "spaced_sys = empty_sys\<lparr>tasks_file := Some (JArr [spaced_blank_task, spaced_task])\<rparr>"

definition three_ticks :: "step list" where
  "three_ticks = [Tick (example_env 0), Tick (example_env 5000), Tick (example_env 10000)]"

section \<open>Properties of the task store\<close>

subsection \<open>De-duplication\<close>

lemma set_update_subset: "set (AList.update k v m) \<subseteq> insert (k, v) (set m)"
  by (induction m) auto

lemma keyed_update:
  "keyed m \<Longrightarrow> is_object p \<Longrightarrow> task_id p \<noteq> [] \<Longrightarrow> keyed (AList.update (task_id p) p m)"
  unfolding keyed_def using set_update_subset[of "task_id p" p m] by auto

lemma keyed_step: "keyed m \<Longrightarrow> keyed (dedupe_step dp p m)"
  by (auto simp: dedupe_step_def keyed_update split: option.splits)

lemma distinct_step: "distinct (map fst m) \<Longrightarrow> distinct (map fst (dedupe_step dp p m))"
  by (auto simp: dedupe_step_def distinct_update split: option.splits)




lemma keyed_fold: "keyed m \<Longrightarrow> keyed (fold (dedupe_step dp) items m)"
  by (induction items arbitrary: m) (auto simp: keyed_step)

lemma distinct_fold: "distinct (map fst m) \<Longrightarrow> distinct (map fst (fold (dedupe_step dp) items m))"
  by (induction items arbitrary: m) (auto simp: distinct_step)






lemma update_fresh: "k \<notin> fst ` set m \<Longrightarrow> AList.update k v m = m @ [(k, v)]"
  by (induction m) auto

lemma map_of_None_iff: "map_of m k = None \<longleftrightarrow> k \<notin> fst ` set m"
  by (simp add: map_of_eq_None_iff)

lemma fold_step_fresh:
  "\<forall>p \<in> set xs. is_object p \<and> task_id p \<noteq> [] \<Longrightarrow>
   distinct (map fst m @ map task_id xs) \<Longrightarrow>
   fold (dedupe_step dp) xs m = m @ map (\<lambda>p. (task_id p, p)) xs"
proof (induction xs arbitrary: m)
  case Nil
  show ?case by simp
next
  case (Cons p xs)
  have fresh: "task_id p \<notin> fst ` set m" using Cons.prems(2) by auto
  then have step: "dedupe_step dp p m = m @ [(task_id p, p)]"
    using Cons.prems(1) by (simp add: dedupe_step_def map_of_None_iff[THEN iffD2] update_fresh)
  have "fold (dedupe_step dp) xs (m @ [(task_id p, p)]) = (m @ [(task_id p, p)]) @ map (\<lambda>p. (task_id p, p)) xs"
    using Cons.prems by (intro Cons.IH) auto
  with step show ?case by simp
qed

lemma dedupe_fixed:
  "\<forall>p \<in> set xs. is_object p \<and> task_id p \<noteq> [] \<Longrightarrow> distinct (map task_id xs) \<Longrightarrow>
   dedupeProjects dp xs = xs"
  using fold_step_fresh[of xs "[]" dp] by (simp add: dedupeProjects_def comp_def)

lemma keyed_Nil: "keyed []" by (simp add: keyed_def)

lemma dedupe_task_ids: "map task_id (dedupeProjects dp xs) = map fst (fold (dedupe_step dp) xs [])"
  using keyed_fold[OF keyed_Nil, of dp xs] by (auto simp: dedupeProjects_def keyed_def)

lemma dedupe_distinct: "distinct (map task_id (dedupeProjects dp xs))"
  by (simp add: dedupe_task_ids distinct_fold)

lemma dedupe_members: "p \<in> set (dedupeProjects dp xs) \<Longrightarrow> is_object p \<and> task_id p \<noteq> []"
  using keyed_fold[OF keyed_Nil, of dp xs] by (auto simp: dedupeProjects_def keyed_def)



lemma dedupe_idem: "dedupeProjects dp (dedupeProjects dp xs) = dedupeProjects dp xs"
  by (rule dedupe_fixed) (auto dest: dedupe_members simp: dedupe_distinct)




lemma map_of_filter_keep:
  "(\<And>v. P (k, v)) \<Longrightarrow> map_of (filter P kvs) k = map_of kvs k"
  by (induction kvs) auto

lemma field_sanitize:
  "k \<noteq> ''status'' \<Longrightarrow> k \<noteq> ''runtime_pid'' \<Longrightarrow> field (sanitize (JObj kvs)) k = field (JObj kvs) k"
  unfolding sanitize_def by (simp add: map_of_filter_keep)

lemma task_id_JObj: "is_object p \<Longrightarrow> task_id p \<noteq> [] \<Longrightarrow> \<exists>kvs. p = JObj kvs"
  by (cases p) (auto simp: task_id_def trim_def)







subsection \<open>Runtime purity\<close>

lemma no_runtime_key_sanitize:
  "\<not> has_key (sanitize p) ''status'' \<and> \<not> has_key (sanitize p) ''runtime_pid''"
  by (cases p) (auto simp: has_key_def sanitize_def)

lemma runtime_free_sanitized: "runtime_free (JArr (map sanitize items))"
  using no_runtime_key_sanitize by (simp add: runtime_free_def list_all_iff)

lemma pure_write: "pure_log s \<Longrightarrow> pure_log (writeProjectsFile items s)"
  by (simp add: pure_log_def writeProjectsFile_def runtime_free_sanitized)

lemma pure_patch: "pure_log s \<Longrightarrow> pure_log (patchProject dp tid patch skip now s)"
  by (simp add: patchProject_def Let_def pure_write split: option.splits)

lemma pure_create: "pure_log s \<Longrightarrow> pure_log (snd (create_handler dp data now gen s))"
  by (simp add: create_handler_def Let_def pure_write split: option.splits)

lemma pure_update: "pure_log s \<Longrightarrow> pure_log (snd (update_handler dp tid data now s))"
  by (simp add: update_handler_def Let_def pure_write split: option.splits)

lemma pure_delete_config: "pure_log s \<Longrightarrow> pure_log (delete_config dp tid s)"
  by (simp add: delete_config_def Let_def pure_write split: option.splits)

lemma pure_dedupe: "pure_log s \<Longrightarrow> pure_log (snd (dedupe_handler dp s))"
  by (simp add: dedupe_handler_def Let_def pure_write)

lemma written_kill_existing [simp]: "written (kill_existing tid s) = written s"
  by (simp add: kill_existing_def split: option.splits)

lemma pure_delete: "pure_log s \<Longrightarrow> pure_log (snd (delete_handler dp tid s))"
proof -
  assume a: "pure_log s"
  have "pure_log (kill_existing tid s
          \<lparr>processes := (processes (kill_existing tid s))(tid := None),
           effects := effects (kill_existing tid s) @ [RegistryDelete tid]\<rparr>)"
    using a by (simp add: pure_log_def)
  then show ?thesis by (simp add: delete_handler_def Let_def pure_delete_config)
qed

lemma pure_serve: "pure_log s \<Longrightarrow> serve dp static now gen m path body s = Some rs \<Longrightarrow> pure_log (snd rs)"
  by (auto simp: serve_def pure_create pure_update pure_delete pure_dedupe
           split: option.splits route.splits list.splits prod.splits)

lemma written_spawn_entry [simp]: "written (spawn_entry k tid cmd ospid ms now s) = written s"
  by (simp add: spawn_entry_def)

lemma pure_start: "pure_log s \<Longrightarrow> pure_log (snd (start_request dp tid cmd ms ospid now s))"
proof -
  assume a: "pure_log s"
  have "pure_log (spawn_entry StartRequest tid cmd ospid (startup_window ms) now (kill_existing tid s))"
    using a by (simp add: pure_log_def)
  then show ?thesis by (simp add: start_request_def pure_patch a)
qed

lemma written_mark_stopped [simp]: "written (mark_stopped tid code signal s) = written s"
  by (simp add: mark_stopped_def split: option.splits)

lemma written_deliver [simp]: "written (deliver he s) = written s"
  by (simp add: deliver_def set_child_def Let_def split: option.splits event.splits)

text \<open>
  Right after the spawn the new child counts as running, so the first check of
  \<^verbatim>\<open>waitForRunning\<close> succeeds and no round of the loop sleeps.
\<close>

lemma running_after_spawn: "isTaskRunning (spawn_entry k tid cmd ospid ms now s) tid"
  by (simp add: isTaskRunning_def entry_running_def spawn_entry_def isRunning_def)

lemma waitForRunning_now: "isTaskRunning s tid \<Longrightarrow> waitForRunning sleep tid n s = (isTaskRunning s tid, s)"
  by (cases n) simp_all

lemma guardianAttemptStart_eq:
  "guardianAttemptStart te p s =
     (if task_id p = [] \<or> \<not> truthy (field p ''start_command'')
          \<or> trim (ToString (the (field p ''start_command''))) = []
      then (False, s)
      else if isTaskRunning s (task_id p) then (True, s)
      else (True, spawn_entry Guardian (task_id p) (ToString (the (field p ''start_command'')))
                    (os_pid te (spawned s)) 0 (now_iso te) s))"
  by (simp add: guardianAttemptStart_def Let_def waitForRunning_now running_after_spawn)

lemma written_attempt [simp]: "written (snd (guardianAttemptStart te p s)) = written s"
  by (simp add: guardianAttemptStart_eq)

lemma pure_guardian_task: "pure_log s \<Longrightarrow> pure_log (guardian_task dp te p s)"
proof -
  assume a: "pure_log s"
  have b: "\<And>f. pure_log (snd (guardianAttemptStart te p s)\<lparr>effects := f\<rparr>)"
    using a by (simp add: pure_log_def)
  have c: "\<And>f g. pure_log (snd (guardianAttemptStart te p s)\<lparr>effects := f, guardianState := g\<rparr>)"
    using a by (simp add: pure_log_def)
  have d: "\<And>g. pure_log (s\<lparr>guardianState := g\<rparr>)"
    using a by (simp add: pure_log_def)
  show ?thesis
    unfolding guardian_task_def Let_def
    by (simp add: a c d pure_patch)
qed

lemma pure_fold_tasks: "pure_log s \<Longrightarrow> pure_log (fold (guardian_task dp te) items s)"
  by (induction items arbitrary: s) (simp_all add: pure_guardian_task)

lemma pure_tick: "pure_log s \<Longrightarrow> pure_log (guardian_tick dp te s)"
  by (simp add: guardian_tick_def pure_fold_tasks)

lemma pure_step: "pure_log s \<Longrightarrow> pure_log (do_step dp st s)"
proof (cases st)
  case (Http static now gen m path body)
  assume "pure_log s"
  then show ?thesis using Http pure_serve[of s dp static now gen m path body]
    by (simp split: option.splits)
next
  case (Start tid cmd ms ospid now)
  assume "pure_log s"
  then show ?thesis using Start by (simp add: pure_start)
next
  case (Deliver h ev)
  assume "pure_log s"
  then show ?thesis using Deliver by (simp add: pure_log_def)
next
  case (Tick te)
  assume "pure_log s"
  then show ?thesis using Tick by (simp add: pure_tick)
next
  case (Patch tid patch skip now)
  assume "pure_log s"
  then show ?thesis using Patch by (simp add: pure_patch)
qed

lemma pure_run: "pure_log s \<Longrightarrow> pure_log (run dp steps s)"
  unfolding run_def by (induction steps arbitrary: s) (simp_all add: pure_step)

text \<open>
  Claim C2. Whatever sequence of requests (create, update, delete, dedupe and the
  others), starts, events of children, guardian ticks and calls of \<^verbatim>\<open>patchProject\<close> the
  server runs, every document it writes to \<^verbatim>\<open>tasks.json\<close> is an array in which no element
  has a key \<^verbatim>\<open>status\<close> or \<^verbatim>\<open>runtime_pid\<close>, also when the objects written had them.
\<close>

theorem writes_are_runtime_free:
  "list_all runtime_free (written (run dp steps (s\<lparr>written := []\<rparr>)))"
proof -
  have "pure_log (s\<lparr>written := []\<rparr>)" by (simp add: pure_log_def)
  then have "pure_log (run dp steps (s\<lparr>written := []\<rparr>))" by (rule pure_run)
  then show ?thesis by (simp add: pure_log_def)
qed

theorem writes_are_runtime_free_witness:
  "map (\<lambda>doc. case doc of JArr ts \<Rightarrow> map (\<lambda>p. (field p ''id'', field p ''restart_count'')) ts | _ \<Rightarrow> [])
       (written (run example_parse example_requests (empty_sys\<lparr>written := []\<rparr>)))
     = [[(Some (JStr ''t1''), Some (JNum 0))], [(Some (JStr ''t1''), Some (JNum 1))]]
   \<and> list_all runtime_free (written (run example_parse example_requests (empty_sys\<lparr>written := []\<rparr>)))"
proof (rule conjI)
  show "map (\<lambda>doc. case doc of JArr ts \<Rightarrow> map (\<lambda>p. (field p ''id'', field p ''restart_count'')) ts | _ \<Rightarrow> [])
       (written (run example_parse example_requests (empty_sys\<lparr>written := []\<rparr>)))
     = [[(Some (JStr ''t1''), Some (JNum 0))], [(Some (JStr ''t1''), Some (JNum 1))]]"
    by code_simp
  show "list_all runtime_free (written (run example_parse example_requests (empty_sys\<lparr>written := []\<rparr>)))"
    by (rule writes_are_runtime_free)
qed

section \<open>Properties of the supervisor\<close>

subsection \<open>The startup window\<close>

lemma children_write [simp]: "children (writeProjectsFile items s) = children s"
  by (simp add: writeProjectsFile_def)

lemma processes_write [simp]: "processes (writeProjectsFile items s) = processes s"
  by (simp add: writeProjectsFile_def)

lemma children_patch [simp]: "children (patchProject dp tid patch skip now s) = children s"
  by (simp add: patchProject_def Let_def split: option.splits)

lemma processes_patch [simp]: "processes (patchProject dp tid patch skip now s) = processes s"
  by (simp add: patchProject_def Let_def split: option.splits)

lemma children_kill_existing [simp]: "children (kill_existing tid s) = children s"
  by (simp add: kill_existing_def split: option.splits)

lemma spawned_kill_existing [simp]: "spawned (kill_existing tid s) = spawned s"
  by (simp add: kill_existing_def split: option.splits)

lemma pending_after_start:
  assumes "tid \<noteq> []" "cmd \<noteq> []"
  shows "pending (spawned s) tid ospid [] [] (snd (start_request dp tid cmd ms ospid now s))"
  using assms by (simp add: start_request_def pending_def spawn_entry_def)

lemma window_after_start:
  assumes "tid \<noteq> []" "cmd \<noteq> []"
  shows "map_option timeout_ms (children (snd (start_request dp tid cmd ms ospid now s)) (spawned s))
           = Some (startup_window ms)"
  using assms by (simp add: start_request_def spawn_entry_def)

lemma processes_mark_stopped:
  "(processes (mark_stopped tid code signal s) t = None) = (processes s t = None)"
  by (simp add: mark_stopped_def split: option.splits)

lemma children_mark_stopped [simp]: "children (mark_stopped tid code signal s) = children s"
  by (simp add: mark_stopped_def split: option.splits)

lemma processes_set_child [simp]: "processes (set_child h c s) = processes s"
  by (simp add: set_child_def)

lemma children_set_child [simp]: "children (set_child h c s) = (children s)(h \<mapsto> c)"
  by (simp add: set_child_def)

lemma processes_deliver: "(processes (deliver he s) t = None) = (processes s t = None)"
  by (simp add: deliver_def Let_def processes_mark_stopped split: option.splits event.splits)

lemma children_deliver_other: "fst he \<noteq> h \<Longrightarrow> children (deliver he s) h = children s h"
  by (simp add: deliver_def Let_def split: option.splits event.splits)

lemma pending_step:
  assumes "pending h tid ospid out err s" "fst he = h \<longrightarrow> is_data (snd he)"
  shows "pending h tid ospid (push_out h he out) (push_err h he err) (deliver he s)"
proof (cases "fst he = h")
  case False
  then have "push_out h he out = out" "push_err h he err = err"
    by (auto simp: push_out_def push_err_def split: event.splits)
  with False assms(1) show ?thesis
    by (simp add: pending_def children_deliver_other processes_deliver)
next
  case True
  with assms(2) have "is_data (snd he)" by simp
  then show ?thesis using True assms(1)
    by (cases "snd he")
       (auto simp: is_data_def pending_def push_out_def push_err_def deliver_def split: option.splits)
qed

lemma pending_run:
  "quiet h pre \<Longrightarrow> pending h tid ospid out err s \<Longrightarrow>
   pending h tid ospid (fold (push_out h) pre out) (fold (push_err h) pre err) (run_events pre s)"
proof (induction pre arbitrary: out err s)
  case Nil
  then show ?case by (simp add: run_events_def)
next
  case (Cons he pre)
  from Cons.prems have q: "fst he = h \<longrightarrow> is_data (snd he)" "quiet h pre"
    by (simp_all add: quiet_def)
  have "pending h tid ospid (push_out h he out) (push_err h he err) (deliver he s)"
    using Cons.prems(2) q(1) by (rule pending_step)
  from Cons.IH[OF q(2) this] show ?case by (simp add: run_events_def)
qed

lemma rb_push_last:
  assumes "0 < n" "buf = last_lines n seen"
  shows "rb_push n d buf = last_lines n (seen @ [d])"
proof (cases "length seen < n")
  case True
  with assms show ?thesis by (simp add: rb_push_def last_lines_def)
next
  case False
  then have "length buf = n" using assms by (simp add: last_lines_def)
  moreover have "tl (drop (length seen - n) seen @ [d]) = drop (Suc (length seen) - n) seen @ [d]"
  proof -
    have ne: "drop (length seen - n) seen \<noteq> []" using False assms(1) by simp
    have "tl (drop (length seen - n) seen) = drop (Suc (length seen - n)) seen"
      by (simp add: drop_Suc tl_drop)
    moreover have "Suc (length seen - n) = Suc (length seen) - n" using False by simp
    ultimately show ?thesis using ne by simp
  qed
  ultimately show ?thesis using False assms by (simp add: rb_push_def last_lines_def)
qed

lemma fold_push_out:
  "buf = last_lines 500 seen \<Longrightarrow> fold (push_out h) evs buf = last_lines 500 (seen @ out_lines h evs)"
proof (induction evs arbitrary: buf seen)
  case Nil
  then show ?case by (simp add: out_lines_def)
next
  case (Cons he evs)
  show ?case
  proof (cases "\<exists>d. snd he = StdoutData d \<and> fst he = h")
    case True
    then obtain d where d: "snd he = StdoutData d" "fst he = h" by blast
    have "push_out h he buf = last_lines 500 (seen @ [d])"
      using d rb_push_last[of 500 buf seen d] Cons.prems by (simp add: push_out_def)
    from Cons.IH[OF this] d show ?thesis by (simp add: out_lines_def)
  next
    case False
    then have "push_out h he buf = buf" "out_lines h (he # evs) = out_lines h evs"
      by (auto simp: push_out_def out_lines_def split: event.splits)
    with Cons.IH[OF Cons.prems] show ?thesis by simp
  qed
qed

lemma fold_push_err:
  "buf = last_lines 500 seen \<Longrightarrow> fold (push_err h) evs buf = last_lines 500 (seen @ err_lines h evs)"
proof (induction evs arbitrary: buf seen)
  case Nil
  then show ?case by (simp add: err_lines_def)
next
  case (Cons he evs)
  show ?case
  proof (cases "\<exists>d. snd he = StderrData d \<and> fst he = h")
    case True
    then obtain d where d: "snd he = StderrData d" "fst he = h" by blast
    have "push_err h he buf = last_lines 500 (seen @ [d])"
      using d rb_push_last[of 500 buf seen d] Cons.prems by (simp add: push_err_def)
    from Cons.IH[OF this] d show ?thesis by (simp add: err_lines_def)
  next
    case False
    then have "push_err h he buf = buf" "err_lines h (he # evs) = err_lines h evs"
      by (auto simp: push_err_def err_lines_def split: event.splits)
    with Cons.IH[OF Cons.prems] show ?thesis by simp
  qed
qed

lemma answered_step: "answered h r s \<Longrightarrow> answered h r (deliver he s)"
proof (cases "fst he = h")
  case False
  assume "answered h r s"
  with False show ?thesis by (simp add: answered_def children_deliver_other)
next
  case True
  assume "answered h r s"
  with True show ?thesis
    by (cases "snd he")
       (auto simp: answered_def deliver_def Let_def respondFail_def respondOk_def split: option.splits)
qed

lemma answered_run: "answered h r s \<Longrightarrow> answered h r (run_events evs s)"
  unfolding run_events_def by (induction evs arbitrary: s) (simp_all add: answered_step)

lemma status_mark_stopped:
  "entry_status_of s tid = Some Stopped \<Longrightarrow> entry_status_of (mark_stopped t code signal s) tid = Some Stopped"
  by (auto simp: entry_status_of_def mark_stopped_def split: option.splits)

lemma stopped_step:
  "entry_status_of s tid = Some Stopped \<Longrightarrow> entry_status_of (deliver he s) tid = Some Stopped"
proof -
  assume a: "entry_status_of s tid = Some Stopped"
  have m: "\<And>t code signal h c. entry_status_of (set_child h c (mark_stopped t code signal s)) tid = Some Stopped"
    using status_mark_stopped[OF a] by (simp add: entry_status_of_def)
  have n: "\<And>h c. entry_status_of (set_child h c s) tid = Some Stopped"
    using a by (simp add: entry_status_of_def)
  show ?thesis
    by (simp add: deliver_def Let_def a m n split: option.splits event.splits)
qed

lemma stopped_run:
  "entry_status_of s tid = Some Stopped \<Longrightarrow> entry_status_of (run_events evs s) tid = Some Stopped"
  unfolding run_events_def by (induction evs arbitrary: s) (simp_all add: stopped_step)

lemma exit_answers:
  assumes "pending h tid ospid out err s"
  shows "answered h (500, fail_body (exit_message code signal) code signal out err)
           (deliver (h, ExitEvent code signal) s)
         \<and> entry_status_of (deliver (h, ExitEvent code signal) s) tid = Some Stopped"
  using assms
  by (auto simp: pending_def answered_def deliver_def Let_def respondFail_def fail_body_def logs_json_def
                 entry_status_of_def mark_stopped_def split: option.splits)

lemma error_answers:
  assumes "pending h tid ospid out err s"
  shows "answered h (500, fail_body (''spawn error: '' @ msg) None None out err)
           (deliver (h, ErrorEvent msg errno) s)
         \<and> entry_status_of (deliver (h, ErrorEvent msg errno) s) tid = Some Stopped"
  using assms
  by (auto simp: pending_def answered_def deliver_def Let_def respondFail_def fail_body_def logs_json_def
                 entry_status_of_def mark_stopped_def split: option.splits)

lemma timer_answers:
  assumes "pending h tid ospid out err s"
  shows "answered h (200, ok_body ospid) (deliver (h, TimerEvent) s)"
  using assms
  by (auto simp: pending_def answered_def deliver_def respondOk_def ok_body_def isRunning_def
           split: option.splits)

lemma answered_reply: "answered h r s \<Longrightarrow> reply_of s h = Some r"
  by (auto simp: answered_def reply_of_def split: option.splits)

lemma run_events_append: "run_events (xs @ ys) s = run_events ys (run_events xs s)"
  by (simp add: run_events_def)

lemma run_events_Cons: "run_events (he # evs) s = run_events evs (deliver he s)"
  by (simp add: run_events_def)

text \<open>
  Claim C1. Take a call of \<^verbatim>\<open>POST /api/projects/start\<close> with a non-empty id and
  start command; the child it spawns is at the address \<open>spawned s\<close>. The delay given to
  \<^verbatim>\<open>setTimeout\<close> is \<^verbatim>\<open>startup_timeout_ms\<close> when that is a positive number and 2000
  otherwise. Let the events \<open>pre\<close> that are handled first hold only output of this child
  (and any events of other children). If its \<^verbatim>\<open>exit\<close> or its \<^verbatim>\<open>error\<close> comes next, before
  the timer, the response is the 500 with \<^verbatim>\<open>ok:false\<close> and the snapshots of the two
  buffers (the last 500 chunks of each stream), and the registry entry of the id has
  status \<^verbatim>\<open>stopped\<close>; if the timer comes next, the child being still alive, the response is
  \<^verbatim>\<open>ok:true\<close> with the child's pid. Whatever events \<open>post\<close> follow change neither.
\<close>

theorem startup_window_outcome:
  assumes valid: "tid \<noteq> []" "start_command \<noteq> []"
      and alive: "quiet (spawned s) pre"
  shows "map_option timeout_ms (children (snd (start_request dp tid start_command ms ospid now s)) (spawned s))
           = Some (case ms of Some (JNum n) \<Rightarrow> if 0 < n then n else 2000 | _ \<Rightarrow> 2000)
       \<and> reply_of (run_events (pre @ [(spawned s, ExitEvent code signal)] @ post)
                     (snd (start_request dp tid start_command ms ospid now s))) (spawned s)
           = Some (500, fail_body (exit_message code signal) code signal
                          (last_lines 500 (out_lines (spawned s) pre))
                          (last_lines 500 (err_lines (spawned s) pre)))
       \<and> entry_status_of (run_events (pre @ [(spawned s, ExitEvent code signal)] @ post)
                     (snd (start_request dp tid start_command ms ospid now s))) tid = Some Stopped
       \<and> reply_of (run_events (pre @ [(spawned s, ErrorEvent msg errno)] @ post)
                     (snd (start_request dp tid start_command ms ospid now s))) (spawned s)
           = Some (500, fail_body (''spawn error: '' @ msg) None None
                          (last_lines 500 (out_lines (spawned s) pre))
                          (last_lines 500 (err_lines (spawned s) pre)))
       \<and> entry_status_of (run_events (pre @ [(spawned s, ErrorEvent msg errno)] @ post)
                     (snd (start_request dp tid start_command ms ospid now s))) tid = Some Stopped
       \<and> reply_of (run_events (pre @ [(spawned s, TimerEvent)] @ post)
                     (snd (start_request dp tid start_command ms ospid now s))) (spawned s)
           = Some (200, ok_body ospid)"
proof -
  let ?h = "spawned s"
  let ?s1 = "snd (start_request dp tid start_command ms ospid now s)"
  let ?out = "last_lines 500 (out_lines ?h pre)"
  let ?err = "last_lines 500 (err_lines ?h pre)"
  have "pending ?h tid ospid [] [] ?s1" using valid by (rule pending_after_start)
  from pending_run[OF alive this]
  have "pending ?h tid ospid (fold (push_out ?h) pre []) (fold (push_err ?h) pre []) (run_events pre ?s1)" .
  moreover have "fold (push_out ?h) pre [] = ?out"
    using fold_push_out[of "[]" "[]" ?h pre] by (simp add: last_lines_def)
  moreover have "fold (push_err ?h) pre [] = ?err"
    using fold_push_err[of "[]" "[]" ?h pre] by (simp add: last_lines_def)
  ultimately have p: "pending ?h tid ospid ?out ?err (run_events pre ?s1)" by simp
  have w: "map_option timeout_ms (children ?s1 ?h)
           = Some (case ms of Some (JNum n) \<Rightarrow> if 0 < n then n else 2000 | _ \<Rightarrow> 2000)"
    using window_after_start[OF valid] by (simp add: startup_window_def)
  from exit_answers[OF p, of code signal]
  have x: "reply_of (run_events (pre @ [(?h, ExitEvent code signal)] @ post) ?s1) ?h
           = Some (500, fail_body (exit_message code signal) code signal ?out ?err)"
    and xs: "entry_status_of (run_events (pre @ [(?h, ExitEvent code signal)] @ post) ?s1) tid = Some Stopped"
    by (simp_all add: run_events_append run_events_Cons answered_reply answered_run stopped_run)
  from error_answers[OF p, of msg errno]
  have e: "reply_of (run_events (pre @ [(?h, ErrorEvent msg errno)] @ post) ?s1) ?h
           = Some (500, fail_body (''spawn error: '' @ msg) None None ?out ?err)"
    and es: "entry_status_of (run_events (pre @ [(?h, ErrorEvent msg errno)] @ post) ?s1) tid = Some Stopped"
    by (simp_all add: run_events_append run_events_Cons answered_reply answered_run stopped_run)
  from timer_answers[OF p]
  have t: "reply_of (run_events (pre @ [(?h, TimerEvent)] @ post) ?s1) ?h = Some (200, ok_body ospid)"
    by (simp add: run_events_append run_events_Cons answered_reply answered_run)
  from w x xs e es t show ?thesis by (intro conjI)
qed

theorem startup_window_outcome_witness:
  "''t1'' \<noteq> [] \<and> ''echo boom 1>&2; exit 2'' \<noteq> []
   \<and> quiet (spawned empty_sys) [(0, StderrData ''boom'')]
   \<and> reply_of (run_events ([(0, StderrData ''boom'')] @ [(spawned empty_sys, ExitEvent (Some 2) None)]
                              @ [(0, TimerEvent)])
                 (snd (start_request example_parse ''t1'' ''echo boom 1>&2; exit 2'' None (Some 4242)
                         ''2024-01-01T00:00:00.000Z'' empty_sys))) (spawned empty_sys)
       = Some (500, JObj [(''ok'', JBool False), (''error'', JStr ''process exited with code 2''),
                          (''code'', JNum 2), (''signal'', JNull),
                          (''logs'', JObj [(''stdout'', JArr []), (''stderr'', JArr [JStr ''boom''])])])
   \<and> entry_status_of (run_events ([(0, StderrData ''boom'')] @ [(spawned empty_sys, ExitEvent (Some 2) None)]
                              @ [(0, TimerEvent)])
                 (snd (start_request example_parse ''t1'' ''echo boom 1>&2; exit 2'' None (Some 4242)
                         ''2024-01-01T00:00:00.000Z'' empty_sys))) ''t1'' = Some Stopped
   \<and> reply_of (run_events ([(0, StderrData ''boom'')] @ [(spawned empty_sys, TimerEvent)]
                              @ [(0, ExitEvent (Some 2) None)])
                 (snd (start_request example_parse ''t1'' ''echo boom 1>&2; exit 2'' None (Some 4242)
                         ''2024-01-01T00:00:00.000Z'' empty_sys))) (spawned empty_sys)
       = Some (200, JObj [(''ok'', JBool True), (''pid'', JNum 4242)])"
proof -
  have h1: "''t1'' \<noteq> []" and h2: "''echo boom 1>&2; exit 2'' \<noteq> []" by simp_all
  have h3: "quiet (spawned empty_sys) [(0, StderrData ''boom'')]" by code_simp
  have b: "fail_body (exit_message (Some 2) None) (Some 2) None
             (last_lines 500 (out_lines (spawned empty_sys) [(0, StderrData ''boom'')]))
             (last_lines 500 (err_lines (spawned empty_sys) [(0, StderrData ''boom'')]))
           = JObj [(''ok'', JBool False), (''error'', JStr ''process exited with code 2''),
                   (''code'', JNum 2), (''signal'', JNull),
                   (''logs'', JObj [(''stdout'', JArr []), (''stderr'', JArr [JStr ''boom''])])]"
    by code_simp
  have o: "ok_body (Some 4242) = JObj [(''ok'', JBool True), (''pid'', JNum 4242)]" by code_simp
  note t = startup_window_outcome[OF h1 h2 h3, of example_parse None "Some 4242"
             "''2024-01-01T00:00:00.000Z''" "Some 2" None]
  from t[of "[(0, TimerEvent)]"] t[of "[(0, ExitEvent (Some 2) None)]"]
  show ?thesis unfolding b o using h1 h2 h3 by blast
qed

subsection \<open>Deleting a task\<close>

lemma store_kill_existing [simp]:
  "tasks_file (kill_existing tid s) = tasks_file s"
  "processes (kill_existing tid s) = processes s"
  by (simp_all add: kill_existing_def split: option.splits)

lemma read_more_update [simp]:
  "readProjectsFile dp (s\<lparr>processes := pr, effects := ef\<rparr>) = readProjectsFile dp s"
  by (simp add: readProjectsFile_def)

lemma read_kill_existing [simp]: "readProjectsFile dp (kill_existing tid s) = readProjectsFile dp s"
  by (simp add: readProjectsFile_def)

lemma effects_write [simp]: "effects (writeProjectsFile items s) = effects s"
  by (simp add: writeProjectsFile_def)

lemma delete_config_frame [simp]:
  "effects (delete_config dp tid s) = effects s"
  "processes (delete_config dp tid s) = processes s"
  by (simp_all add: delete_config_def Let_def split: option.splits)

lemma effects_kill_running:
  "processes s tid = Some e \<Longrightarrow> children s (child_ref e) = Some c \<Longrightarrow> isRunning c \<Longrightarrow>
   effects (kill_existing tid s) = effects s @ [TreeKill (pid c) ''SIGTERM'']"
  by (simp add: kill_existing_def)

text \<open>
  Claim C10. \<^verbatim>\<open>DELETE /api/projects/:id\<close> answers \<^verbatim>\<open>{ok:true}\<close> for every id and every
  state, and afterwards the registry has no entry for the id. When no stored task has
  the id, the file is left as it was and nothing is written. When the registry holds an
  entry for the id whose child is running, the calls the handler makes are first
  \<^verbatim>\<open>treeKill\<close> on the child's pid with \<^verbatim>\<open>SIGTERM\<close> and then \<^verbatim>\<open>processes.delete\<close>.
\<close>

theorem delete_always_ok:
  "fst (delete_handler dp tid s) = (200, JObj [(''ok'', JBool True)])
   \<and> processes (snd (delete_handler dp tid s)) tid = None
   \<and> (findIndex (\<lambda>p. strict_eq (field p ''id'') (Some (JStr tid))) (readProjectsFile dp s) = None \<longrightarrow>
        tasks_file (snd (delete_handler dp tid s)) = tasks_file s
        \<and> written (snd (delete_handler dp tid s)) = written s)
   \<and> (\<forall>e c. processes s tid = Some e \<and> children s (child_ref e) = Some c \<and> isRunning c \<longrightarrow>
        effects (snd (delete_handler dp tid s))
          = effects s @ [TreeKill (pid c) ''SIGTERM'', RegistryDelete tid])"
proof (intro conjI allI impI)
  show "fst (delete_handler dp tid s) = (200, JObj [(''ok'', JBool True)])"
    by (simp add: delete_handler_def Let_def ok_true_def)
  show "processes (snd (delete_handler dp tid s)) tid = None"
    by (simp add: delete_handler_def Let_def)
next
  assume a: "findIndex (\<lambda>p. strict_eq (field p ''id'') (Some (JStr tid))) (readProjectsFile dp s) = None"
  then show "tasks_file (snd (delete_handler dp tid s)) = tasks_file s"
    by (simp add: delete_handler_def Let_def delete_config_def)
  from a show "written (snd (delete_handler dp tid s)) = written s"
    by (simp add: delete_handler_def Let_def delete_config_def)
next
  fix e c
  assume "processes s tid = Some e \<and> children s (child_ref e) = Some c \<and> isRunning c"
  then show "effects (snd (delete_handler dp tid s))
          = effects s @ [TreeKill (pid c) ''SIGTERM'', RegistryDelete tid]"
    by (simp add: delete_handler_def Let_def effects_kill_running)
qed

theorem delete_always_ok_witness:
  "findIndex (\<lambda>p. strict_eq (field p ''id'') (Some (JStr ''t1''))) (readProjectsFile example_parse example_live) = None
   \<and> map_option child_ref (processes example_live ''t1'') = Some 0
   \<and> map_option isRunning (children example_live 0) = Some True
   \<and> fst (delete_handler example_parse ''t1'' example_live) = (200, JObj [(''ok'', JBool True)])
   \<and> processes (snd (delete_handler example_parse ''t1'' example_live)) ''t1'' = None
   \<and> written (snd (delete_handler example_parse ''t1'' example_live)) = written example_live
   \<and> effects (snd (delete_handler example_parse ''t1'' example_live))
        = effects example_live @ [TreeKill (Some 4242) ''SIGTERM'', RegistryDelete ''t1'']"
proof -
  have a: "findIndex (\<lambda>p. strict_eq (field p ''id'') (Some (JStr ''t1''))) (readProjectsFile example_parse example_live) = None"
    by code_simp
  have b: "map_option child_ref (processes example_live ''t1'') = Some 0" by code_simp
  have c: "map_option isRunning (children example_live 0) = Some True" by code_simp
  have d: "map_option pid (children example_live 0) = Some (Some 4242)" by code_simp
  from b obtain e where e: "processes example_live ''t1'' = Some e" "child_ref e = 0" by auto
  from c d obtain ch where ch: "children example_live 0 = Some ch" "isRunning ch" "pid ch = Some 4242" by auto
  from delete_always_ok[of example_parse "''t1''" example_live] a e ch
  show ?thesis using b c by auto
qed

subsection \<open>Clearing the logs\<close>

lemma clear_logs_no_route: "dispatch static DELETE [''api'', ''projects'', ''logs'', tid] = None"
  by (simp add: dispatch_def routes_def)

lemma clear_logs_404:
  "serve dp static now gen DELETE [''api'', ''projects'', ''logs'', tid] body s
     = Some ((404, JStr (''Cannot DELETE /api/projects/logs/'' @ tid)), s)"
  by (simp add: serve_def clear_logs_no_route method_name_def)

text \<open>
  Claim C8, at the state \<open>example_live\<close>, where the child of \<^verbatim>\<open>t1\<close> has written \<^verbatim>\<open>hello\<close>: the
  server registers no route for \<^verbatim>\<open>DELETE /api/projects/logs/:id\<close>, so the request gets the
  404 of the framework and not \<^verbatim>\<open>{ok:true}\<close>, the state is as before, and the
  \<^verbatim>\<open>GET /api/projects/logs/t1\<close> that follows still returns the line.
\<close>

theorem clear_logs_is_not_served:
  "serve example_parse False ''2024-01-01T00:00:00.000Z'' ''proj_x_y'' DELETE
       [''api'', ''projects'', ''logs'', ''t1''] JNull example_live
     = Some ((404, JStr ''Cannot DELETE /api/projects/logs/t1''), example_live)
   \<and> map_option fst (serve example_parse False ''2024-01-01T00:00:00.000Z'' ''proj_x_y'' GET
       [''api'', ''projects'', ''logs'', ''t1''] JNull example_live)
     = Some (200, JObj [(''stdout'', JArr [JStr ''hello'']), (''stderr'', JArr [])])"
proof (rule conjI)
  show "serve example_parse False ''2024-01-01T00:00:00.000Z'' ''proj_x_y'' DELETE
       [''api'', ''projects'', ''logs'', ''t1''] JNull example_live
     = Some ((404, JStr ''Cannot DELETE /api/projects/logs/t1''), example_live)"
    using clear_logs_404[of example_parse False "''2024-01-01T00:00:00.000Z''" "''proj_x_y''" "''t1''" JNull example_live]
    by simp
  show "map_option fst (serve example_parse False ''2024-01-01T00:00:00.000Z'' ''proj_x_y'' GET
       [''api'', ''projects'', ''logs'', ''t1''] JNull example_live)
     = Some (200, JObj [(''stdout'', JArr [JStr ''hello'']), (''stderr'', JArr [])])"
    by code_simp
qed

section \<open>Properties of the guardian\<close>

subsection \<open>Ids and the store after a patch\<close>

lemma dropWhile_last: "dropWhile P ys \<noteq> [] \<Longrightarrow> last (dropWhile P ys) = last ys"
  by (induction ys) (auto split: if_splits)

lemma dropWhile_fixed: "xs = [] \<or> \<not> P (hd xs) \<Longrightarrow> dropWhile P xs = xs"
  by (cases xs) auto

lemma dropWhile_head: "dropWhile P ys = [] \<or> \<not> P (hd (dropWhile P ys))"
  using hd_dropWhile[of P ys] by blast

lemma trim_idem: "trim (trim s) = trim s"
proof -
  let ?u = "dropWhile is_ws s"
  let ?xs = "dropWhile is_ws (rev ?u)"
  have t: "trim s = rev ?xs" by (simp add: trim_def)
  have front: "dropWhile is_ws (rev ?xs) = rev ?xs"
  proof (cases "?xs = []")
    case True
    show ?thesis unfolding True by simp
  next
    case False
    then have "last ?xs = last (rev ?u)" by (rule dropWhile_last)
    moreover have une: "?u \<noteq> []"
    proof
      assume u: "?u = []"
      have "?xs = []" unfolding u by simp
      with False show False by blast
    qed
    ultimately have "last ?xs = hd ?u" by (simp add: last_rev)
    moreover have "\<not> is_ws (hd ?u)" using une hd_dropWhile[of is_ws s] by simp
    ultimately have "\<not> is_ws (hd (rev ?xs))" using False by (simp add: hd_rev)
    then show ?thesis by (rule dropWhile_fixed[OF disjI2])
  qed
  have rear: "dropWhile is_ws ?xs = ?xs" by (rule dropWhile_fixed[OF dropWhile_head])
  show ?thesis unfolding t by (simp add: trim_def front rear)
qed

lemma trim_task_id: "trim (task_id p) = task_id p"
  by (simp add: task_id_def trim_idem)

lemma task_id_of_string_id:
  "strict_eq (field p ''id'') (Some (JStr j)) \<Longrightarrow> task_id p = trim j"
  by (auto simp: strict_eq_def task_id_def trim_def)

lemma findIndex_Some: "findIndex f xs = Some idx \<Longrightarrow> idx < length xs \<and> f (xs ! idx)"
  by (induction xs arbitrary: idx) (auto split: if_splits)

lemma map_of_update_other: "k \<noteq> k' \<Longrightarrow> map_of (AList.update k v al) k' = map_of al k'"
  by (simp add: update_conv')

lemma map_of_spread:
  "k \<notin> fst ` set patch \<Longrightarrow> map_of (spread kvs patch) k = map_of kvs k"
  unfolding spread_def
  by (induction patch arbitrary: kvs) (auto simp: map_of_update_other)

lemma is_object_sanitize [simp]: "is_object (sanitize p) = is_object p"
  by (cases p) (simp_all add: sanitize_def)

lemma task_id_sanitize: "task_id (sanitize (JObj kvs)) = task_id (JObj kvs)"
  using field_sanitize[of "''id''" kvs] by (simp add: task_id_def)

lemma member_JObj: "p \<in> set (readProjectsFile dp s) \<Longrightarrow> \<exists>kvs. p = JObj kvs"
  by (auto simp: readProjectsFile_def split: option.splits json.splits dest!: dedupe_members intro: task_id_JObj)

lemma read_members: "p \<in> set (readProjectsFile dp s) \<Longrightarrow> is_object p \<and> task_id p \<noteq> []"
  by (auto simp: readProjectsFile_def split: option.splits json.splits dest: dedupe_members)

lemma read_distinct: "distinct (map task_id (readProjectsFile dp s))"
  by (auto simp: readProjectsFile_def dedupe_distinct split: option.splits json.splits)

text \<open>The list read back after \<^verbatim>\<open>patchProject\<close> has written it.\<close>

lemma read_after_write:
  assumes "\<forall>p \<in> set ys. (\<exists>kvs. p = JObj kvs) \<and> task_id p \<noteq> []" "distinct (map task_id ys)" "fs_writable s"
  shows "readProjectsFile dp (writeProjectsFile ys s) = map sanitize ys"
proof -
  have ids: "map (\<lambda>p. task_id (sanitize p)) ys = map task_id ys"
    using assms(1) by (induction ys) (auto simp: task_id_sanitize)
  have "\<forall>p \<in> set (map sanitize ys). is_object p \<and> task_id p \<noteq> []"
    using assms(1) by (auto simp: task_id_sanitize)
  moreover have "distinct (map task_id (map sanitize ys))"
    unfolding map_map comp_def ids by (rule assms(2))
  ultimately have "dedupeProjects dp (map sanitize ys) = map sanitize ys" by (rule dedupe_fixed)
  then show ?thesis using assms(3) by (simp add: readProjectsFile_def writeProjectsFile_def)
qed

lemma read_patch:
  assumes "''id'' \<notin> fst ` set patch"
  shows "readProjectsFile dp (patchProject dp j patch skip now s) =
     (case findIndex (\<lambda>p. strict_eq (field p ''id'') (Some (JStr j))) (readProjectsFile dp s) of
        None \<Rightarrow> readProjectsFile dp s
      | Some idx \<Rightarrow>
          if fs_writable s
          then map sanitize ((readProjectsFile dp s)[idx := JObj
                 (if skip then spread (entries_of (readProjectsFile dp s ! idx)) patch
                  else AList.update ''updated_date'' (JStr now)
                         (spread (entries_of (readProjectsFile dp s ! idx)) patch))])
          else readProjectsFile dp s)"
proof (cases "findIndex (\<lambda>p. strict_eq (field p ''id'') (Some (JStr j))) (readProjectsFile dp s)")
  case None
  then show ?thesis by (simp add: patchProject_def)
next
  case (Some idx)
  let ?items = "readProjectsFile dp s"
  let ?upd = "if skip then spread (entries_of (?items ! idx)) patch
              else AList.update ''updated_date'' (JStr now) (spread (entries_of (?items ! idx)) patch)"
  from findIndex_Some[OF Some] have idx: "idx < length ?items" by simp
  then have mem: "?items ! idx \<in> set ?items" by simp
  from member_JObj[OF mem] obtain kvs where kvs: "?items ! idx = JObj kvs" by blast
  have "map_of ?upd ''id'' = map_of kvs ''id''"
    using assms kvs by (simp add: map_of_spread map_of_update_other)
  then have tid: "task_id (JObj ?upd) = task_id (?items ! idx)"
    by (simp add: task_id_def kvs)
  have p: "patchProject dp j patch skip now s = writeProjectsFile (?items[idx := JObj ?upd]) s"
    using Some by (simp add: patchProject_def Let_def)
  show ?thesis
  proof (cases "fs_writable s")
    case False
    then show ?thesis using Some p by (simp add: writeProjectsFile_def)
  next
    case True
    have a: "\<forall>p \<in> set (?items[idx := JObj ?upd]). (\<exists>kvs. p = JObj kvs) \<and> task_id p \<noteq> []"
    proof
      fix q assume "q \<in> set (?items[idx := JObj ?upd])"
      then have "q = JObj ?upd \<or> q \<in> set ?items" using set_update_subset_insert by fastforce
      then show "(\<exists>kvs. q = JObj kvs) \<and> task_id q \<noteq> []"
        using tid read_members[OF mem] member_JObj[of q dp s] read_members[of q dp s] by auto
    qed
    have "map task_id (?items[idx := JObj ?upd]) = (map task_id ?items)[idx := task_id (?items ! idx)]"
      by (simp add: map_update tid)
    also have "\<dots> = map task_id ?items" using idx by (simp add: list_update_id map_update[symmetric])
    finally have b: "distinct (map task_id (?items[idx := JObj ?upd]))" using read_distinct by simp
    from read_after_write[OF a b True] show ?thesis using Some p True by simp
  qed
qed


subsection \<open>Manual stop\<close>

lemma read_cong: "tasks_file s' = tasks_file s \<Longrightarrow> readProjectsFile dp s' = readProjectsFile dp s"
  by (simp add: readProjectsFile_def)

lemma held_cong: "tasks_file s' = tasks_file s \<Longrightarrow> held dp i s' = held dp i s"
  unfolding held_def readProjectsFile_def by simp

lemma read_frame [simp]:
  "readProjectsFile dp (s\<lparr>processes := pr\<rparr>) = readProjectsFile dp s"
  "readProjectsFile dp (s\<lparr>children := ch\<rparr>) = readProjectsFile dp s"
  "readProjectsFile dp (s\<lparr>spawned := n\<rparr>) = readProjectsFile dp s"
  "readProjectsFile dp (s\<lparr>guardianState := g\<rparr>) = readProjectsFile dp s"
  "readProjectsFile dp (s\<lparr>effects := e\<rparr>) = readProjectsFile dp s"
  by (simp_all add: readProjectsFile_def)

lemma held_frame [simp]:
  "held dp i (s\<lparr>processes := pr\<rparr>) = held dp i s"
  "held dp i (s\<lparr>children := ch\<rparr>) = held dp i s"
  "held dp i (s\<lparr>spawned := n\<rparr>) = held dp i s"
  "held dp i (s\<lparr>guardianState := g\<rparr>) = held dp i s"
  "held dp i (s\<lparr>effects := e\<rparr>) = held dp i s"
  by (simp_all add: held_def)

lemma effects_patch [simp]: "effects (patchProject dp tid patch skip now s) = effects s"
  by (simp add: patchProject_def Let_def split: option.splits)

lemma member_update_other: "p \<in> set xs \<Longrightarrow> p \<noteq> xs ! idx \<Longrightarrow> p \<in> set (xs[idx := x])"
  by (induction xs arbitrary: idx) (auto split: nat.splits)

lemma held_patch:
  assumes h: "held dp i s" and ne: "j \<noteq> i" and tj: "trim j = j" and pk: "''id'' \<notin> fst ` set patch"
  shows "held dp i (patchProject dp j patch skip now s)"
proof -
  let ?items = "readProjectsFile dp s"
  from h obtain p where p: "p \<in> set ?items" "task_id p = i" "truthy (field p ''manual_stopped'')"
    by (auto simp: held_def)
  show ?thesis
  proof (cases "findIndex (\<lambda>p. strict_eq (field p ''id'') (Some (JStr j))) ?items")
    case None
    then show ?thesis using h by (simp add: held_def read_patch[OF pk])
  next
    case (Some idx)
    show ?thesis
    proof (cases "fs_writable s")
      case False
      then show ?thesis using h Some by (simp add: held_def read_patch[OF pk])
    next
      case True
      from findIndex_Some[OF Some] have "task_id (?items ! idx) = trim j"
        by (simp add: task_id_of_string_id)
      with tj ne p(2) have "p \<noteq> ?items ! idx" by auto
      from member_update_other[OF p(1) this]
      have mem: "\<And>x. sanitize p \<in> set (map sanitize (?items[idx := x]))" by simp
      from member_JObj[OF p(1)] obtain kvs where kvs: "p = JObj kvs" by blast
      have "task_id (sanitize p) = i" using p(2) kvs by (simp add: task_id_sanitize)
      moreover have "truthy (field (sanitize p) ''manual_stopped'')"
        using p(3) kvs by (simp add: field_sanitize)
      ultimately show ?thesis
        using mem Some True unfolding held_def read_patch[OF pk] by (auto simp del: set_map)
    qed
  qed
qed

lemma tasks_file_spawn_entry [simp]: "tasks_file (spawn_entry k tid cmd ospid ms now s) = tasks_file s"
  by (simp add: spawn_entry_def)

lemma effects_spawn_entry [simp]:
  "effects (spawn_entry k tid cmd ospid ms now s) = effects s @ [Spawn tid cmd]"
  by (simp add: spawn_entry_def)

lemma tasks_file_attempt [simp]: "tasks_file (snd (guardianAttemptStart te p s)) = tasks_file s"
  by (simp add: guardianAttemptStart_eq)

lemma held_attempt [simp]: "held dp i (snd (guardianAttemptStart te p s)) = held dp i s"
  by (rule held_cong) simp

lemma effects_attempt_other:
  "task_id q \<noteq> i \<Longrightarrow>
   filter (concerns i) (effects (snd (guardianAttemptStart te q s))) = filter (concerns i) (effects s)"
  by (simp add: guardianAttemptStart_eq concerns_def)

lemma guardian_task_stopped:
  assumes "truthy (field q ''manual_stopped'')"
  shows "effects (guardian_task dp te q s) = effects s"
    and "tasks_file (guardian_task dp te q s) = tasks_file s"
  using assms by (simp_all add: guardian_task_def)

lemma guardian_task_other_effects:
  assumes "task_id q \<noteq> i"
  shows "filter (concerns i) (effects (guardian_task dp te q s)) = filter (concerns i) (effects s)"
  using assms by (simp add: guardian_task_def Let_def effects_attempt_other concerns_def)

lemma guardian_task_other_held:
  assumes "held dp i s" "task_id q \<noteq> i"
  shows "held dp i (guardian_task dp te q s)"
proof -
  have patched: "\<And>s' patch. held dp i s' \<Longrightarrow> ''id'' \<notin> fst ` set patch \<Longrightarrow>
                   held dp i (patchProject dp (task_id q) patch False (now_iso te) s')"
    using assms(2) by (intro held_patch) (simp_all add: trim_task_id)
  show ?thesis
    unfolding guardian_task_def Let_def
    by (simp add: assms(1) patched)
qed

lemma fold_tasks_stopped:
  assumes "\<forall>q \<in> set qs. task_id q = i \<longrightarrow> truthy (field q ''manual_stopped'')" "held dp i s"
  shows "held dp i (fold (guardian_task dp te) qs s)
         \<and> filter (concerns i) (effects (fold (guardian_task dp te) qs s)) = filter (concerns i) (effects s)"
  using assms
proof (induction qs arbitrary: s)
  case Nil
  then show ?case by simp
next
  case (Cons q qs)
  have step: "held dp i (guardian_task dp te q s)
              \<and> filter (concerns i) (effects (guardian_task dp te q s)) = filter (concerns i) (effects s)"
  proof (cases "task_id q = i")
    case True
    with Cons.prems(1) have t: "truthy (field q ''manual_stopped'')" by simp
    show ?thesis
      using guardian_task_stopped[OF t, of dp te s] Cons.prems(2)
            held_cong[of "guardian_task dp te q s" s dp i] by simp
  next
    case False
    then show ?thesis
      using guardian_task_other_held[OF Cons.prems(2)] guardian_task_other_effects by simp
  qed
  from Cons.prems(1) have rest: "\<forall>q \<in> set qs. task_id q = i \<longrightarrow> truthy (field q ''manual_stopped'')"
    by simp
  from Cons.IH[OF rest conjunct1[OF step]] step show ?case by simp
qed

lemma same_id_same_task:
  "distinct (map f xs) \<Longrightarrow> p \<in> set xs \<Longrightarrow> q \<in> set xs \<Longrightarrow> f q = f p \<Longrightarrow> q = p"
  by (meson distinct_map inj_onD)

lemma tick_stopped:
  assumes "held dp i s"
  shows "held dp i (guardian_tick dp te s)
         \<and> filter (concerns i) (effects (guardian_tick dp te s)) = filter (concerns i) (effects s)"
proof -
  from assms obtain p where p: "p \<in> set (readProjectsFile dp s)" "task_id p = i"
      "truthy (field p ''manual_stopped'')"
    by (auto simp: held_def)
  have "\<forall>q \<in> set (readProjectsFile dp s). task_id q = i \<longrightarrow> truthy (field q ''manual_stopped'')"
  proof (intro ballI impI)
    fix q assume "q \<in> set (readProjectsFile dp s)" "task_id q = i"
    then have "q = p" using same_id_same_task[OF read_distinct p(1), of q] p(2) by simp
    then show "truthy (field q ''manual_stopped'')" using p(3) by simp
  qed
  from fold_tasks_stopped[OF this assms] show ?thesis by (simp add: guardian_tick_def)
qed

lemma tasks_file_mark_stopped [simp]: "tasks_file (mark_stopped tid code signal s) = tasks_file s"
  by (simp add: mark_stopped_def split: option.splits)

lemma effects_mark_stopped [simp]: "effects (mark_stopped tid code signal s) = effects s"
  by (simp add: mark_stopped_def split: option.splits)

lemma deliver_frame [simp]:
  "tasks_file (deliver he s) = tasks_file s"
  "effects (deliver he s) = effects s"
  by (simp_all add: deliver_def set_child_def Let_def split: option.splits event.splits)

lemma guardian_run_stopped:
  assumes "list_all guardian_step steps" "held dp i s"
  shows "held dp i (run dp steps s)
         \<and> filter (concerns i) (effects (run dp steps s)) = filter (concerns i) (effects s)"
  using assms
proof (induction steps arbitrary: s)
  case Nil
  then show ?case by (simp add: run_def)
next
  case (Cons st steps)
  from Cons.prems(1) have g: "guardian_step st" "list_all guardian_step steps" by simp_all
  have step: "held dp i (do_step dp st s)
              \<and> filter (concerns i) (effects (do_step dp st s)) = filter (concerns i) (effects s)"
  proof (cases st)
    case (Deliver h ev)
    then show ?thesis
      using Cons.prems(2) held_cong[of "deliver (h, ev) s" s dp i] by simp
  next
    case (Tick te)
    then show ?thesis using tick_stopped[OF Cons.prems(2)] by simp
  qed (use g(1) in \<open>simp_all add: guardian_step_def\<close>)
  from Cons.IH[OF g(2) conjunct1[OF step]] step show ?case by (simp add: run_def)
qed

text \<open>
  Claim C3. Let a stored task have \<^verbatim>\<open>manual_stopped\<close> true. In every run of guardian ticks
  and events of children, of any length and from any state (whatever \<^verbatim>\<open>auto_restart\<close>,
  \<^verbatim>\<open>restart_count\<close> and the next-attempt time are), the guardian makes no call of
  \<^verbatim>\<open>guardianAttemptStart\<close> and spawns no child for the id of that task: the attempts and
  spawns recorded for the id after the run are those recorded before it.
\<close>

theorem manual_stop_suppresses_guardian:
  assumes "p \<in> set (readProjectsFile dp s)"
      and "field p ''manual_stopped'' = Some (JBool True)"
      and "list_all guardian_step steps"
  shows "filter (concerns (task_id p)) (effects (run dp steps s)) = filter (concerns (task_id p)) (effects s)"
proof -
  have "held dp (task_id p) s" using assms(1,2) by (auto simp: held_def)
  from guardian_run_stopped[OF assms(3) this] show ?thesis by simp
qed

theorem manual_stop_suppresses_guardian_witness:
  "stopped_task \<in> set (readProjectsFile example_parse stopped_sys)
   \<and> field stopped_task ''manual_stopped'' = Some (JBool True)
   \<and> list_all guardian_step crash_loop
   \<and> filter (concerns ''t3'') (effects (run example_parse crash_loop stopped_sys)) = []
   \<and> length (filter (concerns ''t4'') (effects (run example_parse crash_loop stopped_sys))) = 6"
proof -
  have h1: "stopped_task \<in> set (readProjectsFile example_parse stopped_sys)" by code_simp
  have h2: "field stopped_task ''manual_stopped'' = Some (JBool True)" by code_simp
  have h3: "list_all guardian_step crash_loop" by code_simp
  have e1: "task_id stopped_task = ''t3''" by code_simp
  have e2: "filter (concerns ''t3'') (effects stopped_sys) = []" by code_simp
  have e3: "length (filter (concerns ''t4'') (effects (run example_parse crash_loop stopped_sys))) = 6"
    by code_simp
  from manual_stop_suppresses_guardian[OF h1 h2 h3]
  have "filter (concerns ''t3'') (effects (run example_parse crash_loop stopped_sys)) = []"
    unfolding e1 e2 .
  with h1 h2 h3 e3 show ?thesis by (intro conjI)
qed

subsection \<open>A command that exits at once\<close>

text \<open>
  For a task with an id and a start command that is not blank, \<^verbatim>\<open>guardianAttemptStart\<close>
  returns \<^verbatim>\<open>true\<close> in every state: either the task runs already, or the child has just
  been spawned and the first check of \<^verbatim>\<open>waitForRunning\<close> finds it running.
\<close>

lemma guardian_attempt_succeeds:
  assumes "task_id p \<noteq> []" "truthy (field p ''start_command'')"
      and "trim (ToString (the (field p ''start_command''))) \<noteq> []"
  shows "fst (guardianAttemptStart te p s)"
  using assms by (simp add: guardianAttemptStart_eq)

text \<open>
  Claim C4, at the task \<^verbatim>\<open>t4\<close> of \<open>guarded_sys\<close>, whose cap \<^verbatim>\<open>max_restarts\<close> is 2 and whose
  command exits with code 1 as soon as it runs. In three ticks the guardian restarts the
  task three times; each restart fails (each child has exited with code 1 before the
  next tick), none is counted (the stored \<^verbatim>\<open>restart_count\<close> is 0 after the run) and the
  guardian goes on attempting, since \<^verbatim>\<open>guardianAttemptStart\<close> has returned \<^verbatim>\<open>true\<close> each
  time. And at the task of \<open>spaced_sys\<close> stored under the id \<^verbatim>\<open>" t6"\<close>, with the same cap
  and no start command: the three attempts of three ticks fail, by the guardian's own
  account, and the stored \<^verbatim>\<open>restart_count\<close> stays 0, since \<^verbatim>\<open>patchProject\<close> looks for a task
  whose \<^verbatim>\<open>id\<close> is \<^verbatim>\<open>"t6"\<close>.
\<close>

theorem crash_loop_exceeds_cap:
  "field crash_task ''max_restarts'' = Some (JNum 2)
   \<and> filter (concerns ''t4'') (effects (run example_parse crash_loop guarded_sys))
       = [Spawn ''t4'' ''false'', GuardianAttempt ''t4'' 0 True,
          Spawn ''t4'' ''false'', GuardianAttempt ''t4'' 5000 True,
          Spawn ''t4'' ''false'', GuardianAttempt ''t4'' 10000 True]
   \<and> map (\<lambda>h. map_option exitCode (children (run example_parse crash_loop guarded_sys) h)) [0, 1, 2]
       = [Some (Some 1), Some (Some 1), Some (Some 1)]
   \<and> stored_field example_parse (run example_parse crash_loop guarded_sys) ''t4'' ''restart_count''
       = Some (JNum 0)
   \<and> field spaced_blank_task ''max_restarts'' = Some (JNum 2)
   \<and> filter (concerns ''t6'') (effects (run example_parse three_ticks spaced_sys))
       = [GuardianAttempt ''t6'' 0 False, GuardianAttempt ''t6'' 5000 False,
          GuardianAttempt ''t6'' 10000 False]
   \<and> stored_field example_parse (run example_parse three_ticks spaced_sys) ''t6'' ''restart_count''
       = Some (JNum 0)"
  by code_simp

text \<open>
  Claim C5, at the same task, whose \<^verbatim>\<open>restart_interval\<close> is 60 seconds. The restart of the
  tick at 0 ms fails (the child exits with code 1), the guardian sets no next-attempt
  time for the task, and the tick at 5000 ms restarts it again: two failed restarts in a
  row, 5 seconds apart.
\<close>

theorem crash_loop_without_backoff:
  "field crash_task ''restart_interval'' = Some (JNum 60)
   \<and> filter (concerns ''t4'') (effects (run example_parse (take 4 crash_loop) guarded_sys))
       = [Spawn ''t4'' ''false'', GuardianAttempt ''t4'' 0 True,
          Spawn ''t4'' ''false'', GuardianAttempt ''t4'' 5000 True]
   \<and> map (\<lambda>h. map_option exitCode (children (run example_parse (take 4 crash_loop) guarded_sys) h)) [0, 1]
       = [Some (Some 1), Some (Some 1)]
   \<and> guardianState (run example_parse (take 2 crash_loop) guarded_sys) ''t4'' = None
   \<and> (5000::int) - 0 < max 1 60 * 1000"
  by code_simp

text \<open>
  Claim C6, at the two tasks of \<open>guarded_sys\<close>, both last updated on 2024-01-01. One tick,
  on 2024-01-02, in which the guardian only does its bookkeeping: for \<^verbatim>\<open>t5\<close> the attempt
  fails and \<^verbatim>\<open>restart_count\<close> goes from 0 to 1, for \<^verbatim>\<open>t4\<close> the fields of a success are
  written. The \<^verbatim>\<open>updated_date\<close> of both tasks is then the time of the tick.
\<close>

theorem guardian_bookkeeping_sets_updated_date:
  "map (\<lambda>t. stored_field example_parse guarded_sys t ''updated_date'') [''t4'', ''t5'']
     = [Some (JStr ''2024-01-01T00:00:00.000Z''), Some (JStr ''2024-01-01T00:00:00.000Z'')]
   \<and> effects (run example_parse [Tick (example_env 0)] guarded_sys)
       = [Spawn ''t4'' ''false'', GuardianAttempt ''t4'' 0 True, GuardianAttempt ''t5'' 0 False]
   \<and> map (\<lambda>t. stored_field example_parse (run example_parse [Tick (example_env 0)] guarded_sys) t ''restart_count'')
         [''t4'', ''t5'']
       = [Some (JNum 0), Some (JNum 1)]
   \<and> map (\<lambda>t. stored_field example_parse (run example_parse [Tick (example_env 0)] guarded_sys) t ''updated_date'')
         [''t4'', ''t5'']
       = [Some (JStr ''2024-01-02T00:00:00.000Z''), Some (JStr ''2024-01-02T00:00:00.000Z'')]"
  by code_simp

text \<open>
  Claim C9, at the task \<^verbatim>\<open>t4\<close>, stored with \<^verbatim>\<open>restart_count\<close> 1. The guardian restarts it;
  the restart fails, the child exiting with code 1; the stored \<^verbatim>\<open>restart_count\<close> is then
  0, not 2: a failed restart has reset the counter. And at the task of \<open>spaced_sys\<close> stored
  under the id \<^verbatim>\<open>" t7"\<close> with \<^verbatim>\<open>restart_count\<close> 3: the guardian restarts it, the child stays
  alive, and the stored \<^verbatim>\<open>restart_count\<close> is still 3, since \<^verbatim>\<open>patchProject\<close> looks for a task
  whose \<^verbatim>\<open>id\<close> is \<^verbatim>\<open>"t7"\<close>.
\<close>

theorem failed_restart_resets_count:
  "stored_field example_parse guarded_sys ''t4'' ''restart_count'' = Some (JNum 1)
   \<and> filter (concerns ''t4'') (effects (run example_parse (take 2 crash_loop) guarded_sys))
       = [Spawn ''t4'' ''false'', GuardianAttempt ''t4'' 0 True]
   \<and> map_option exitCode (children (run example_parse (take 2 crash_loop) guarded_sys) 0) = Some (Some 1)
   \<and> map_option status (processes (run example_parse (take 2 crash_loop) guarded_sys) ''t4'') = Some Stopped
   \<and> stored_field example_parse (run example_parse (take 2 crash_loop) guarded_sys) ''t4'' ''restart_count''
       = Some (JNum 0)
   \<and> stored_field example_parse spaced_sys ''t7'' ''restart_count'' = Some (JNum 3)
   \<and> filter (concerns ''t7'') (effects (run example_parse three_ticks spaced_sys))
       = [Spawn ''t7'' ''sleep 60'', GuardianAttempt ''t7'' 0 True]
   \<and> isTaskRunning (run example_parse three_ticks spaced_sys) ''t7''
   \<and> stored_field example_parse (run example_parse three_ticks spaced_sys) ''t7'' ''restart_count''
       = Some (JNum 3)"
  by code_simp

subsection \<open>What the body of the loop does when an attempt fails\<close>

text \<open>
  The branch for a failed attempt is taken when the task has no start command. It sets
  the next-attempt time to \<^verbatim>\<open>now + max(1, restart_interval) * 1000\<close>.
\<close>

lemma guardianState_write [simp]: "guardianState (writeProjectsFile items s) = guardianState s"
  by (simp add: writeProjectsFile_def)

lemma guardianState_patch [simp]: "guardianState (patchProject dp tid patch skip now s) = guardianState s"
  by (simp add: patchProject_def Let_def split: option.splits)

lemma guardian_task_failure:
  assumes elig: "is_object p" "task_id p \<noteq> []" "truthy (field p ''auto_restart'')"
                "\<not> truthy (field p ''manual_stopped'')" "truthy (field p ''was_running_before_shutdown'')"
      and cap: "\<not> (0 < num_or (field p ''max_restarts'') 5
                  \<and> num_or (field p ''max_restarts'') 5 \<le> num_or (field p ''restart_count'') 0)"
      and idle: "\<not> isTaskRunning s (task_id p)"
      and due: "\<not> now_ms te < (case guardianState s (task_id p) of None \<Rightarrow> 0 | Some t \<Rightarrow> t)"
      and blank: "\<not> truthy (field p ''start_command'')"
  shows "effects (guardian_task dp te p s) = effects s @ [GuardianAttempt (task_id p) (now_ms te) False]"
    and "guardianState (guardian_task dp te p s) (task_id p)
           = Some (now_ms te + max 1 (num_or (field p ''restart_interval'') 15) * 1000)"
  using assms by (auto simp: guardian_task_def Let_def guardianAttemptStart_eq)

text \<open>Before the next-attempt time, and at the cap, the body of the loop attempts nothing.\<close>

lemma guardian_task_backoff:
  assumes "guardianState s (task_id p) = Some t" "now_ms te < t"
  shows "effects (guardian_task dp te p s) = effects s"
  using assms by (simp add: guardian_task_def Let_def)

lemma guardian_task_capped:
  assumes "field p ''max_restarts'' = Some (JNum n)" "0 < n"
      and "field p ''restart_count'' = Some (JNum c)" "n \<le> c"
  shows "guardian_task dp te p s = s
         \<or> guardian_task dp te p s = s\<lparr>guardianState := (guardianState s)(task_id p := None)\<rparr>"
  using assms by (simp add: guardian_task_def Let_def num_or_def)

text \<open>With \<^verbatim>\<open>max_restarts\<close> 0 the cap suppresses nothing, whatever the count.\<close>

lemma guardian_task_uncapped:
  assumes elig: "is_object p" "task_id p \<noteq> []" "truthy (field p ''auto_restart'')"
                "\<not> truthy (field p ''manual_stopped'')" "truthy (field p ''was_running_before_shutdown'')"
      and zero: "field p ''max_restarts'' = Some (JNum 0)"
      and idle: "\<not> isTaskRunning s (task_id p)"
      and due: "\<not> now_ms te < (case guardianState s (task_id p) of None \<Rightarrow> 0 | Some t \<Rightarrow> t)"
  shows "GuardianAttempt (task_id p) (now_ms te) (fst (guardianAttemptStart te p s))
           \<in> set (effects (guardian_task dp te p s))"
  using assms by (simp add: guardian_task_def Let_def num_or_def)

subsection \<open>De-duplication of any file\<close>

lemma dedupe_then_list_any_file:
  assumes "tasks_file s = Some (JArr arr)"
  shows "readProjectsFile dp (snd (dedupe_handler dp s))
           = (if fs_writable s then map sanitize (dedupeProjects dp arr) else dedupeProjects dp arr)"
proof -
  let ?D = "dedupeProjects dp arr"
  have r: "readProjectsFile dp s = ?D" using assms by (simp add: readProjectsFile_def)
  have a: "\<forall>p \<in> set ?D. (\<exists>kvs. p = JObj kvs) \<and> task_id p \<noteq> []"
    using dedupe_members[of _ dp arr] task_id_JObj by blast
  show ?thesis
  proof (cases "fs_writable s")
    case True
    from read_after_write[OF a dedupe_distinct True, of dp] show ?thesis
      using True by (simp add: dedupe_handler_def Let_def r dedupe_idem)
  next
    case False
    then show ?thesis by (simp add: dedupe_handler_def Let_def r writeProjectsFile_def)
  qed
qed

end
